theory Spec2Isabelle
  imports Complex_Main "HOL-Library.AList" "HOL-Library.Char_ord" "HOL-Library.List_Lexorder"
begin

section \<open>Python values, dictionaries and errors\<close>

text \<open>
  The toy Monte Carlo runner of \<^verbatim>\<open>alea/runner.py\<close> is embedded as pure functions.
  A float is carried as the real number it stands for, or as the one special value the runner
  itself writes (\<^verbatim>\<open>np.nan\<close>); the embedding never computes with floats. A Python value is
  one of the kinds that can occur as a value of \<^verbatim>\<open>generate_values\<close>, \<^verbatim>\<open>common_hypothesis\<close>
  or a hypothesis.
\<close>

datatype npfloat = Finite real | NaN

datatype pyval = PNone | PBool bool | PInt int | PFloat npfloat | PStr string

text \<open>
  A \<^verbatim>\<open>dict\<close> with string keys is an association list in insertion order:
  \<^verbatim>\<open>d[k] = v\<close> is \<^const>\<open>AList.update\<close> (in place when the key exists, appended otherwise),
  \<^verbatim>\<open>d.pop(k)\<close> is \<^const>\<open>AList.delete\<close>, \<^verbatim>\<open>d[k]\<close> and \<^verbatim>\<open>k in d\<close> read \<^const>\<open>map_of\<close>
  and the keys.
\<close>

type_synonym 'v dict = "(string \<times> 'v) list"

definition dict_keys :: "'v dict \<Rightarrow> string list" where
  "dict_keys d = map fst d"

definition dict_values :: "'v dict \<Rightarrow> 'v list" where
  "dict_values d = map snd d"

text \<open>\<^verbatim>\<open>d.update(other)\<close> and \<^verbatim>\<open>{**d, **other}\<close>: the items of \<open>other\<close>, in order, written into \<open>d\<close>.\<close>

definition dict_update :: "'v dict \<Rightarrow> 'v dict \<Rightarrow> 'v dict" where
  "dict_update d other = fold (\<lambda>kv. AList.update (fst kv) (snd kv)) other d"

text \<open>\<^verbatim>\<open>isinstance(v, (float, int))\<close>: \<^verbatim>\<open>bool\<close> is a subclass of \<^verbatim>\<open>int\<close>.\<close>

fun is_float_or_int :: "pyval \<Rightarrow> bool" where
  "is_float_or_int (PBool b) = True"
| "is_float_or_int (PInt i) = True"
| "is_float_or_int (PFloat f) = True"
| "is_float_or_int PNone = False"
| "is_float_or_int (PStr s) = False"

text \<open>Every \<^verbatim>\<open>ValueError\<close> the runner raises, with the values its message prints.\<close>

datatype value_error =
    NotDictOfFloat string "pyval dict"
  | PoiAlongWithExpectation string
  | PoiNotRateMultiplier string
  | HypothesesEmpty
  | FreeNeededForConfidenceInterval
  | FreeNotFirst
  | PoiNotInGenerateValues string
  | DictUpdateSequence
  | UnknownToydataMode string
  | OnlyToydataMode string
  | FewerToydata nat int
  | NotFittableSubset "pyval dict" "string list"
  | NegativeDimensions
  | DuplicateField
  | TupleSize

datatype error =
    ValueError value_error
  | KeyError string
  | IndexError
  | TypeError
  | ZeroDivisionError
  | OverflowError
  | UnboundLocalError
  | CollaboratorError string

datatype warning = MoreToydata nat int

text \<open>
  The true division \<^verbatim>\<open>a / b\<close> of a number by a float is the interpreter's: it rounds to the
  nearest double, and raises on a zero divisor (\<^verbatim>\<open>ZeroDivisionError\<close>) and on an integer
  beyond the range of the doubles (\<^verbatim>\<open>OverflowError\<close>). Rounding and range are not modelled:
  the division is a parameter of the functions that divide.
\<close>

type_synonym truediv = "pyval \<Rightarrow> npfloat \<Rightarrow> error + pyval"

text \<open>\<^verbatim>\<open>s.endswith(suffix)\<close> and \<^verbatim>\<open>s.replace(pat, "")\<close> (every occurrence, left to right).\<close>

definition endswith :: "string \<Rightarrow> string \<Rightarrow> bool" where
  "endswith s suffix = (length suffix \<le> length s \<and> drop (length s - length suffix) s = suffix)"

function str_remove :: "string \<Rightarrow> string \<Rightarrow> string" where
  "str_remove pat [] = []"
| "str_remove pat (c # cs) =
     (if pat \<noteq> [] \<and> take (length pat) (c # cs) = pat
      then str_remove pat (drop (length pat) (c # cs))
      else c # str_remove pat cs)"
  by pat_completeness auto
termination
  by (relation "measure (\<lambda>p. length (snd p))") auto

section \<open>The statistical model: the collaborator contract\<close>

text \<open>
  The statistical model (\<^verbatim>\<open>alea.model.StatisticalModel\<close>) is not part of the sources at hand;
  the runner only calls it. It is a parameter: a record of its operations over a state \<open>'w\<close>
  that stands for everything mutable outside the runner (the model's current data and caches,
  random number generator, files). Each operation may raise. \<open>'d\<close> is the type of one toy
  dataset. The parameter lists are fixed once the model is constructed.
\<close>

record ('w, 'd) statistical_model =
  get_parameter_list :: "string list"
  fittable :: "string list"
  get_expectation_values :: "pyval dict \<Rightarrow> 'w \<Rightarrow> error + (npfloat dict \<times> 'w)"
  generate_data :: "pyval dict \<Rightarrow> 'w \<Rightarrow> error + ('d \<times> 'w)"
  set_data :: "'d option \<Rightarrow> 'w \<Rightarrow> error + 'w"
  fit :: "pyval dict \<Rightarrow> 'w \<Rightarrow> error + ((npfloat dict \<times> npfloat) \<times> 'w)"
  confidence_interval ::
    "string \<Rightarrow> pyval dict \<Rightarrow> pyval dict \<Rightarrow> 'w \<Rightarrow> error + ((npfloat \<times> npfloat) \<times> 'w)"
  store_data :: "string \<Rightarrow> 'd list \<Rightarrow> string list option \<Rightarrow> 'w \<Rightarrow> error + 'w"

text \<open>\<^verbatim>\<open>inference_interface.toydata_from_file\<close>, the other collaborator.\<close>

type_synonym ('w, 'd) toydata_reader =
  "string \<Rightarrow> 'w \<Rightarrow> error + (('d list \<times> string list option) \<times> 'w)"

section \<open>The runner\<close>

datatype hypothesis = HStr string | HDict "pyval dict"

record ('w, 'd) runner =
  model :: "('w, 'd) statistical_model"
  nominal_values :: "pyval dict"
  poi :: string
  hypotheses :: "hypothesis list"
  common_hypothesis :: "pyval dict"
  generate_values :: "pyval dict"
  compute_confidence_interval :: bool
  n_mc :: int
  toydata_file :: string
  toydata_mode :: string
  output_file :: string
  only_toydata :: bool
  metadata :: "pyval dict"
  result_names :: "string list"
  result_dtype :: "string list"
  hypotheses_values :: "pyval dict list"

text \<open>
  The arguments of \<^verbatim>\<open>Runner.__init__\<close>, and what the constructor takes from its
  surroundings. Looking the model class up by name, loading the optional configuration file
  and calling the class are collaborators: \<open>statistical_model\<close> is the constructor call as a
  function of the nominal values it is passed. \<open>arg_truediv\<close> is the true division of the
  interpreter that runs the constructor.
\<close>

record ('w, 'd) runner_args =
  arg_statistical_model :: "pyval dict \<Rightarrow> 'w \<Rightarrow> error + (('w, 'd) statistical_model \<times> 'w)"
  arg_poi :: string
  arg_hypotheses :: "hypothesis list"
  arg_n_mc :: int
  arg_common_hypothesis :: "pyval dict option"
  arg_generate_values :: "pyval dict option"
  arg_nominal_values :: "pyval dict option"
  arg_compute_confidence_interval :: bool
  arg_toydata_mode :: string
  arg_toydata_file :: string
  arg_only_toydata :: bool
  arg_output_file :: string
  arg_metadata :: "pyval dict option"
  arg_truediv :: truediv

text \<open>\<^verbatim>\<open>x if x else {}\<close>: \<^verbatim>\<open>None\<close> and the empty dict both give the empty dict.\<close>

definition or_empty :: "'v dict option \<Rightarrow> 'v dict" where
  "or_empty x = (case x of None \<Rightarrow> [] | Some d \<Rightarrow> (if d = [] then [] else d))"

subsection \<open>Setters and \<^verbatim>\<open>_update_poi\<close>\<close>

definition common_hypothesis_setter :: "pyval dict \<Rightarrow> error + pyval dict" where
  "common_hypothesis_setter v =
     (if \<not> list_all is_float_or_int (dict_values v)
      then Inl (ValueError (NotDictOfFloat ''common_hypothesis'' v))
      else Inr v)"

definition update_poi ::
  "truediv \<Rightarrow> ('w, 'd) statistical_model \<Rightarrow> string \<Rightarrow> pyval dict \<Rightarrow> pyval dict \<Rightarrow> 'w \<Rightarrow>
     error + (pyval dict \<times> 'w)" where
  "update_poi truediv m p gv nominal w =
     (if ''poi_expectation'' \<notin> set (dict_keys gv) then Inr (gv, w)
      else if p \<in> set (dict_keys gv) then Inl (ValueError (PoiAlongWithExpectation p))
      else if \<not> endswith p ''_rate_multiplier'' then Inl (ValueError (PoiNotRateMultiplier p))
      else
        (let generate_values_copy = AList.delete ''poi_expectation'' gv in
         case get_expectation_values m (dict_update generate_values_copy nominal) w of
           Inl e \<Rightarrow> Inl e
         | Inr (expectation_values, w') \<Rightarrow>
             (let component = str_remove ''_rate_multiplier'' p in
              case map_of gv ''poi_expectation'' of
                None \<Rightarrow> Inl (KeyError ''poi_expectation'')
              | Some poi_expectation \<Rightarrow>
                  (case map_of expectation_values component of
                     None \<Rightarrow> Inl (KeyError component)
                   | Some nominal_expectation \<Rightarrow>
                       (case truediv poi_expectation nominal_expectation of
                          Inl e \<Rightarrow> Inl e
                        | Inr ratio \<Rightarrow>
                            Inr (AList.update p ratio (AList.delete ''poi_expectation'' gv),
                                 w'))))))"

definition generate_values_setter ::
  "truediv \<Rightarrow> ('w, 'd) statistical_model \<Rightarrow> string \<Rightarrow> pyval dict \<Rightarrow> pyval dict \<Rightarrow> 'w \<Rightarrow>
     error + (pyval dict \<times> 'w)" where
  "generate_values_setter truediv m p nominal v w =
     (if \<not> list_all is_float_or_int (dict_values v)
      then Inl (ValueError (NotDictOfFloat ''generate_values'' v))
      else update_poi truediv m p v nominal w)"

subsection \<open>\<^verbatim>\<open>_get_parameter_list\<close> and \<^verbatim>\<open>_get_hypotheses\<close>\<close>

definition runner_get_parameter_list ::
  "('w, 'd) statistical_model \<Rightarrow> string list \<times> string list" where
  "runner_get_parameter_list m =
     (let parameter_list = sort (get_parameter_list m) in
      (parameter_list @ [''ll'', ''dl'', ''ul''], parameter_list @ [''ll'', ''dl'', ''ul'']))"

text \<open>The \<^verbatim>\<open>if/elif\<close> chain that replaces a symbolic hypothesis by its dict.\<close>

definition resolve_symbolic :: "('w, 'd) runner \<Rightarrow> hypothesis \<Rightarrow> error + hypothesis" where
  "resolve_symbolic r h =
     (if h = HStr ''null'' then Inr (HDict [(poi r, PFloat (Finite 0))])
      else if h = HStr ''true'' then
        (if poi r \<notin> set (dict_keys (generate_values r))
         then Inl (ValueError (PoiNotInGenerateValues (poi r)))
         else Inr (HDict [(poi r,
                (case map_of (generate_values r) (poi r) of None \<Rightarrow> PNone | Some v \<Rightarrow> v))]))
      else if h = HStr ''free'' then Inr (HDict [])
      else Inr h)"

text \<open>
  \<^verbatim>\<open>array.update(hypothesis)\<close>: with a dict, its items; with a string that is none of the three
  symbolic names, the characters are read as key-value pairs, which fails unless there is none.
\<close>

definition array_update :: "pyval dict \<Rightarrow> hypothesis \<Rightarrow> error + pyval dict" where
  "array_update array h =
     (case h of
        HDict d \<Rightarrow> Inr (dict_update array d)
      | HStr s \<Rightarrow> (if s = [] then Inr array else Inl (ValueError DictUpdateSequence)))"

definition resolve_hypothesis :: "('w, 'd) runner \<Rightarrow> hypothesis \<Rightarrow> error + pyval dict" where
  "resolve_hypothesis r h =
     (case resolve_symbolic r h of
        Inl e \<Rightarrow> Inl e
      | Inr h' \<Rightarrow>
          (case array_update (common_hypothesis r) h' of
             Inl e \<Rightarrow> Inl e
           | Inr array \<Rightarrow>
               (if \<not> list_all is_float_or_int (dict_values array)
                then Inl (ValueError (NotDictOfFloat ''hypothesis'' array))
                else Inr array)))"

fun resolve_hypotheses :: "('w, 'd) runner \<Rightarrow> hypothesis list \<Rightarrow> error + pyval dict list" where
  "resolve_hypotheses r [] = Inr []"
| "resolve_hypotheses r (h # hs) =
     (case resolve_hypothesis r h of
        Inl e \<Rightarrow> Inl e
      | Inr array \<Rightarrow>
          (case resolve_hypotheses r hs of
             Inl e \<Rightarrow> Inl e
           | Inr arrays \<Rightarrow> Inr (array # arrays)))"

text \<open>\<^verbatim>\<open>xs.index(x)\<close>, the first position of \<open>x\<close>.\<close>

fun list_index :: "'a list \<Rightarrow> 'a \<Rightarrow> nat option" where
  "list_index [] x = None"
| "list_index (y # ys) x =
     (if y = x then Some 0 else map_option Suc (list_index ys x))"

definition get_hypotheses :: "('w, 'd) runner \<Rightarrow> error + pyval dict list" where
  "get_hypotheses r =
     (if length (hypotheses r) = 0 then Inl (ValueError HypothesesEmpty)
      else if HStr ''free'' \<notin> set (hypotheses r) \<and> compute_confidence_interval r
        then Inl (ValueError FreeNeededForConfidenceInterval)
      else if HStr ''free'' \<in> set (hypotheses r)
              \<and> list_index (hypotheses r) (HStr ''free'') \<noteq> Some 0
        then Inl (ValueError FreeNotFirst)
      else resolve_hypotheses r (hypotheses r))"

subsection \<open>\<^verbatim>\<open>__init__\<close>\<close>

definition init ::
  "('w, 'd) runner_args \<Rightarrow> 'w \<Rightarrow> error + (('w, 'd) runner \<times> 'w)" where
  "init a w =
     (let nominal = or_empty (arg_nominal_values a) in
      case arg_statistical_model a nominal w of
        Inl e \<Rightarrow> Inl e
      | Inr (m, w1) \<Rightarrow>
          (case common_hypothesis_setter (or_empty (arg_common_hypothesis a)) of
             Inl e \<Rightarrow> Inl e
           | Inr ch \<Rightarrow>
               (case generate_values_setter (arg_truediv a) m (arg_poi a) nominal
                       (or_empty (arg_generate_values a)) w1 of
                  Inl e \<Rightarrow> Inl e
                | Inr (gv, w2) \<Rightarrow>
                    (let r = \<lparr> model = m, nominal_values = nominal, poi = arg_poi a,
                               hypotheses = arg_hypotheses a, common_hypothesis = ch,
                               generate_values = gv,
                               compute_confidence_interval = arg_compute_confidence_interval a,
                               n_mc = arg_n_mc a, toydata_file = arg_toydata_file a,
                               toydata_mode = arg_toydata_mode a,
                               output_file = arg_output_file a,
                               only_toydata = arg_only_toydata a,
                               metadata = or_empty (arg_metadata a),
                               result_names = fst (runner_get_parameter_list m),
                               result_dtype = snd (runner_get_parameter_list m),
                               hypotheses_values = [] \<rparr>
                     in case get_hypotheses r of
                          Inl e \<Rightarrow> Inl e
                        | Inr hv \<Rightarrow> Inr (r\<lparr>hypotheses_values := hv\<rparr>, w2)))))"

subsection \<open>\<^verbatim>\<open>data_generator\<close>\<close>

text \<open>
  \<^verbatim>\<open>data_generator\<close> is a Python generator: nothing of its body runs before the consumer asks
  for the first value. It is split where the consumer's loop body is interleaved:
  \<open>data_generator_begin\<close> is the code before the \<^verbatim>\<open>for\<close> loop (run at the first request),
  \<open>data_generator_step\<close> one round of the loop up to its \<^verbatim>\<open>yield\<close>, and
  \<open>data_generator_end\<close> the code after the loop (run when the consumer asks for a value and
  there is none left). The warning raised by \<^verbatim>\<open>warnings.warn\<close> is returned.
\<close>

definition data_generator_begin ::
  "('w, 'd) toydata_reader \<Rightarrow> ('w, 'd) runner \<Rightarrow> 'w \<Rightarrow>
     error + (('d list \<times> string list option \<times> warning list) \<times> 'w)" where
  "data_generator_begin toydata_from_file r w =
     (if toydata_mode r \<notin> {''read'', ''generate'', ''generate_and_write'', ''no_toydata''}
        then Inl (ValueError (UnknownToydataMode (toydata_mode r)))
      else if only_toydata r \<and> toydata_mode r \<noteq> ''generate_and_write''
        then Inl (ValueError (OnlyToydataMode (toydata_mode r)))
      else if toydata_mode r = ''read'' then
        (case toydata_from_file (toydata_file r) w of
           Inl e \<Rightarrow> Inl e
         | Inr ((toydata, toydata_names), w') \<Rightarrow>
             (if int (length toydata) < n_mc r
                then Inl (ValueError (FewerToydata (length toydata) (n_mc r)))
              else if int (length toydata) > n_mc r
                then Inr ((toydata, toydata_names, [MoreToydata (length toydata) (n_mc r)]), w')
              else Inr ((toydata, toydata_names, []), w')))
      else Inr (([], None, []), w))"

definition data_generator_step ::
  "('w, 'd) runner \<Rightarrow> nat \<Rightarrow> 'd list \<Rightarrow> 'w \<Rightarrow> error + (('d option \<times> 'd list) \<times> 'w)" where
  "data_generator_step r i_mc toydata w =
     (if toydata_mode r = ''generate'' \<or> toydata_mode r = ''generate_and_write'' then
        (case generate_data (model r) (generate_values r) w of
           Inl e \<Rightarrow> Inl e
         | Inr (data, w') \<Rightarrow>
             (if toydata_mode r = ''generate_and_write''
              then Inr ((Some data, toydata @ [data]), w')
              else Inr ((Some data, toydata), w')))
      else if toydata_mode r = ''read'' then
        (if i_mc < length toydata then Inr ((Some (toydata ! i_mc), toydata), w)
         else Inl IndexError)
      else if toydata_mode r = ''no_toydata'' then Inr ((None, toydata), w)
      else Inl UnboundLocalError)"

definition data_generator_end ::
  "('w, 'd) runner \<Rightarrow> 'd list \<Rightarrow> string list option \<Rightarrow> 'w \<Rightarrow> error + 'w" where
  "data_generator_end r toydata toydata_names w =
     (if toydata_mode r = ''generate_and_write''
      then store_data (model r) (toydata_file r) toydata toydata_names w
      else Inr w)"

text \<open>
  A consumer's \<^verbatim>\<open>for\<close> loop over the generator. \<open>body\<close> is the loop body: it gets the index
  and the yielded value, updates the consumer's accumulator \<open>'a\<close> and says whether the
  consumer goes on (\<^verbatim>\<open>all\<close> stops at the first false value; a \<^verbatim>\<open>for\<close> loop always goes on).
  The first component of the result tells whether the generator was run to its end.
\<close>

fun consume_generator ::
  "('w, 'd) runner \<Rightarrow> (nat \<Rightarrow> 'd option \<Rightarrow> 'a \<Rightarrow> 'w \<Rightarrow> error + (('a \<times> bool) \<times> 'w)) \<Rightarrow>
     nat list \<Rightarrow> 'd list \<Rightarrow> 'a \<Rightarrow> 'w \<Rightarrow> error + ((bool \<times> 'd list \<times> 'a) \<times> 'w)" where
  "consume_generator r body [] toydata acc w = Inr ((True, toydata, acc), w)"
| "consume_generator r body (i_mc # rest) toydata acc w =
     (case data_generator_step r i_mc toydata w of
        Inl e \<Rightarrow> Inl e
      | Inr ((data, toydata1), w1) \<Rightarrow>
          (case body i_mc data acc w1 of
             Inl e \<Rightarrow> Inl e
           | Inr ((acc1, continue), w2) \<Rightarrow>
               (if continue then consume_generator r body rest toydata1 acc1 w2
                else Inr ((False, toydata1, acc1), w2))))"

definition for_data_generator ::
  "('w, 'd) toydata_reader \<Rightarrow> ('w, 'd) runner \<Rightarrow>
     (nat \<Rightarrow> 'd option \<Rightarrow> 'a \<Rightarrow> 'w \<Rightarrow> error + (('a \<times> bool) \<times> 'w)) \<Rightarrow> 'a \<Rightarrow> 'w \<Rightarrow>
     error + (('a \<times> warning list) \<times> 'w)" where
  "for_data_generator toydata_from_file r body acc w =
     (case data_generator_begin toydata_from_file r w of
        Inl e \<Rightarrow> Inl e
      | Inr ((toydata, toydata_names, warns), w1) \<Rightarrow>
          (case consume_generator r body [0..<nat (n_mc r)] toydata acc w1 of
             Inl e \<Rightarrow> Inl e
           | Inr ((finished, toydata1, acc1), w2) \<Rightarrow>
               (if finished then
                  (case data_generator_end r toydata1 toydata_names w2 of
                     Inl e \<Rightarrow> Inl e
                   | Inr w3 \<Rightarrow> Inr ((acc1, warns), w3))
                else Inr ((acc1, warns), w2))))"

text \<open>\<^verbatim>\<open>list(self.data_generator())\<close>: the values the generator yields, in order.\<close>

definition collect_body ::
  "nat \<Rightarrow> 'd option \<Rightarrow> 'd option list \<Rightarrow> 'w \<Rightarrow> error + (('d option list \<times> bool) \<times> 'w)" where
  "collect_body i_mc data acc w = Inr ((acc @ [data], True), w)"

definition data_generator_list ::
  "('w, 'd) toydata_reader \<Rightarrow> ('w, 'd) runner \<Rightarrow> 'w \<Rightarrow>
     error + (('d option list \<times> warning list) \<times> 'w)" where
  "data_generator_list toydata_from_file r w =
     for_data_generator toydata_from_file r collect_body [] w"

subsection \<open>\<^verbatim>\<open>simulate\<close>\<close>

text \<open>
  \<^verbatim>\<open>all(tqdm(self.data_generator(), total=self._n_mc))\<close>: the progress bar passes the values
  through; \<^verbatim>\<open>all\<close> stops at the first value that is not true. \<^verbatim>\<open>None\<close> is not true; whether
  a dataset is, is given by \<open>truthy\<close>.
\<close>

definition simulate_body ::
  "('d \<Rightarrow> bool) \<Rightarrow> nat \<Rightarrow> 'd option \<Rightarrow> unit \<Rightarrow> 'w \<Rightarrow> error + ((unit \<times> bool) \<times> 'w)" where
  "simulate_body truthy i_mc data acc w =
     Inr ((acc, (case data of None \<Rightarrow> False | Some d \<Rightarrow> truthy d)), w)"

definition simulate ::
  "('w, 'd) toydata_reader \<Rightarrow> ('d \<Rightarrow> bool) \<Rightarrow> ('w, 'd) runner \<Rightarrow> 'w \<Rightarrow>
     error + (warning list \<times> 'w)" where
  "simulate toydata_from_file truthy r w =
     (case for_data_generator toydata_from_file r (simulate_body truthy) () w of
        Inl e \<Rightarrow> Inl e
      | Inr ((u, warns), w') \<Rightarrow> Inr (warns, w'))"

subsection \<open>\<^verbatim>\<open>simulate_and_fit\<close>\<close>

text \<open>
  A result table is a numpy structured array: its field names and its rows, each row one
  float per field. \<^verbatim>\<open>np.zeros\<close> refuses a negative length and a repeated field name.
\<close>

record table =
  tnames :: "string list"
  trows :: "npfloat list list"

definition np_zeros :: "int \<Rightarrow> string list \<Rightarrow> error + table" where
  "np_zeros n dtype =
     (if \<not> distinct dtype then Inl (ValueError DuplicateField)
      else if n < 0 then Inl (ValueError NegativeDimensions)
      else Inr \<lparr> tnames = dtype,
                 trows = replicate (nat n) (replicate (length dtype) (Finite 0)) \<rparr>)"

text \<open>\<^verbatim>\<open>[np.zeros(self._n_mc, dtype=self._result_dtype) for _ in self._hypotheses_values]\<close>\<close>

fun results_init :: "int \<Rightarrow> string list \<Rightarrow> 'h list \<Rightarrow> error + table list" where
  "results_init n dtype [] = Inr []"
| "results_init n dtype (h # hs) =
     (case np_zeros n dtype of
        Inl e \<Rightarrow> Inl e
      | Inr t \<Rightarrow>
          (case results_init n dtype hs of
             Inl e \<Rightarrow> Inl e
           | Inr ts \<Rightarrow> Inr (t # ts)))"

text \<open>The body of the loop over the hypotheses, for one hypothesis.\<close>

definition fit_hypothesis ::
  "('w, 'd) runner \<Rightarrow> pyval dict \<Rightarrow> 'w \<Rightarrow> error + (npfloat dict \<times> 'w)" where
  "fit_hypothesis r hypothesis_values w =
     (if set (dict_keys hypothesis_values) - set (fittable (model r)) \<noteq> {}
        then Inl (ValueError (NotFittableSubset hypothesis_values (fittable (model r))))
      else
        (case fit (model r) hypothesis_values w of
           Inl e \<Rightarrow> Inl e
         | Inr ((fit_result, max_llh), w1) \<Rightarrow>
             (case (if compute_confidence_interval r
                       \<and> poi r \<notin> set (dict_keys hypothesis_values)
                    then (case hypotheses_values r of
                            [] \<Rightarrow> Inl IndexError
                          | best_fit_args # others \<Rightarrow>
                              confidence_interval (model r) (poi r) best_fit_args
                                hypothesis_values w1)
                    else Inr ((NaN, NaN), w1)) of
                Inl e \<Rightarrow> Inl e
              | Inr ((dl, ul), w2) \<Rightarrow>
                  Inr (AList.update ''ul'' ul
                         (AList.update ''dl'' dl (AList.update ''ll'' max_llh fit_result)),
                       w2))))"

fun fit_hypotheses ::
  "('w, 'd) runner \<Rightarrow> pyval dict list \<Rightarrow> 'w \<Rightarrow> error + (npfloat dict list \<times> 'w)" where
  "fit_hypotheses r [] w = Inr ([], w)"
| "fit_hypotheses r (hypothesis_values # rest) w =
     (case fit_hypothesis r hypothesis_values w of
        Inl e \<Rightarrow> Inl e
      | Inr (fit_result, w1) \<Rightarrow>
          (case fit_hypotheses r rest w1 of
             Inl e \<Rightarrow> Inl e
           | Inr (fit_results, w2) \<Rightarrow> Inr (fit_result # fit_results, w2)))"

text \<open>\<^verbatim>\<open>tuple(fit_result[pn] for pn in self._result_names)\<close>\<close>

fun make_row :: "string list \<Rightarrow> npfloat dict \<Rightarrow> error + npfloat list" where
  "make_row [] fit_result = Inr []"
| "make_row (pn # pns) fit_result =
     (case map_of fit_result pn of
        None \<Rightarrow> Inl (KeyError pn)
      | Some v \<Rightarrow>
          (case make_row pns fit_result of
             Inl e \<Rightarrow> Inl e
           | Inr vs \<Rightarrow> Inr (v # vs)))"

text \<open>\<^verbatim>\<open>result_array[i_mc] = row\<close>\<close>

definition table_set :: "table \<Rightarrow> nat \<Rightarrow> npfloat list \<Rightarrow> error + table" where
  "table_set t i row =
     (if \<not> i < length (trows t) then Inl IndexError
      else if length row \<noteq> length (tnames t) then Inl (ValueError TupleSize)
      else Inr (t\<lparr>trows := (trows t)[i := row]\<rparr>))"

text \<open>The loop over \<^verbatim>\<open>zip(fit_results, results)\<close>; tables beyond the zip stay as they are.\<close>

fun assign_results ::
  "string list \<Rightarrow> nat \<Rightarrow> npfloat dict list \<Rightarrow> table list \<Rightarrow> error + table list" where
  "assign_results names i_mc (fit_result # fit_results) (result_array # results) =
     (case make_row names fit_result of
        Inl e \<Rightarrow> Inl e
      | Inr row \<Rightarrow>
          (case table_set result_array i_mc row of
             Inl e \<Rightarrow> Inl e
           | Inr t \<Rightarrow>
               (case assign_results names i_mc fit_results results of
                  Inl e \<Rightarrow> Inl e
                | Inr ts \<Rightarrow> Inr (t # ts))))"
| "assign_results names i_mc [] results = Inr results"
| "assign_results names i_mc fit_results [] = Inr []"

definition simulate_and_fit_body ::
  "('w, 'd) runner \<Rightarrow> nat \<Rightarrow> 'd option \<Rightarrow> table list \<Rightarrow> 'w \<Rightarrow>
     error + ((table list \<times> bool) \<times> 'w)" where
  "simulate_and_fit_body r i_mc data results w =
     (case set_data (model r) data w of
        Inl e \<Rightarrow> Inl e
      | Inr w1 \<Rightarrow>
          (case fit_hypotheses r (hypotheses_values r) w1 of
             Inl e \<Rightarrow> Inl e
           | Inr (fit_results, w2) \<Rightarrow>
               (case assign_results (result_names r) i_mc fit_results results of
                  Inl e \<Rightarrow> Inl e
                | Inr results1 \<Rightarrow> Inr ((results1, True), w2))))"

definition simulate_and_fit ::
  "('w, 'd) toydata_reader \<Rightarrow> ('w, 'd) runner \<Rightarrow> 'w \<Rightarrow>
     error + ((table list \<times> warning list) \<times> 'w)" where
  "simulate_and_fit toydata_from_file r w =
     (case results_init (n_mc r) (result_dtype r) (hypotheses_values r) of
        Inl e \<Rightarrow> Inl e
      | Inr results \<Rightarrow>
          for_data_generator toydata_from_file r (simulate_and_fit_body r) results w)"

text \<open>
  The record of a run, to state which iteration fills which row: the loop of
  \<^verbatim>\<open>simulate_and_fit\<close> with the same calls of the model in the same order, which instead of
  writing tables appends, in each iteration, the index \<^verbatim>\<open>i_mc\<close> and the \<^verbatim>\<open>fit_results\<close> of
  that iteration.
\<close>

definition fit_rounds_body ::
  "('w, 'd) runner \<Rightarrow> nat \<Rightarrow> 'd option \<Rightarrow> (nat \<times> npfloat dict list) list \<Rightarrow> 'w \<Rightarrow>
     error + (((nat \<times> npfloat dict list) list \<times> bool) \<times> 'w)" where
  "fit_rounds_body r i_mc data rounds w =
     (case set_data (model r) data w of
        Inl e \<Rightarrow> Inl e
      | Inr w1 \<Rightarrow>
          (case fit_hypotheses r (hypotheses_values r) w1 of
             Inl e \<Rightarrow> Inl e
           | Inr (fit_results, w2) \<Rightarrow> Inr ((rounds @ [(i_mc, fit_results)], True), w2)))"

definition fit_rounds ::
  "('w, 'd) toydata_reader \<Rightarrow> ('w, 'd) runner \<Rightarrow> 'w \<Rightarrow>
     error + (((nat \<times> npfloat dict list) list \<times> warning list) \<times> 'w)" where
  "fit_rounds toydata_from_file r w =
     for_data_generator toydata_from_file r (fit_rounds_body r) [] w"

text \<open>Reading a result, \<^verbatim>\<open>result_array[i][c]\<close>: the field named \<open>c\<close> of row \<open>i\<close>.\<close>

definition table_get :: "table \<Rightarrow> nat \<Rightarrow> string \<Rightarrow> npfloat option" where
  "table_get t i c =
     (if i < length (trows t) then map_of (zip (tnames t) (trows t ! i)) c else None)"

section \<open>An example model\<close>

text \<open>
  A small deterministic stand-in for the Gaussian example model (parameters \<open>mu\<close> and
  \<open>sigma\<close>, only \<open>mu\<close> fittable), used to run the embedding on concrete inputs. Its state
  counts the datasets generated so far.
\<close>

definition example_model :: "(nat, real) statistical_model" where
  "example_model =
     \<lparr> get_parameter_list = [''sigma'', ''mu''],
       fittable = [''mu''],
       get_expectation_values = (\<lambda>kwargs w. Inr ([(''signal'', Finite 4)], w)),
       generate_data = (\<lambda>kwargs w. Inr (real w, Suc w)),
       set_data = (\<lambda>data w. Inr w),
       fit = (\<lambda>kwargs w. Inr (([(''mu'', Finite 0), (''sigma'', Finite 1)], Finite (- 1)), w)),
       confidence_interval = (\<lambda>p best_fit_args ci_args w. Inr ((Finite (- 2), Finite 2), w)),
       store_data = (\<lambda>file toydata names w. Inr w) \<rparr>"

text \<open>
  A stand-in for the division, tabulated where the examples divide: \<^verbatim>\<open>8 / 4.0\<close> is \<^verbatim>\<open>2.0\<close>,
  and a zero divisor raises. The examples make no other division.
\<close>

definition example_truediv :: truediv where
  "example_truediv a b =
     (if a = PInt 8 \<and> b = Finite 4 then Inr (PFloat (Finite 2))
      else if b = Finite 0 then Inl ZeroDivisionError
      else Inl (CollaboratorError ''quotient not tabulated''))"

definition example_args :: "(nat, real) runner_args" where
  "example_args =
     \<lparr> arg_statistical_model = (\<lambda>nominal w. Inr (example_model, w)),
       arg_poi = ''mu'',
       arg_hypotheses = [HStr ''free'', HStr ''null''],
       arg_n_mc = 3,
       arg_common_hypothesis = None,
       arg_generate_values = Some [(''mu'', PBool True)],
       arg_nominal_values = None,
       arg_compute_confidence_interval = True,
       arg_toydata_mode = ''generate'',
       arg_toydata_file = ''toy.h5'',
       arg_only_toydata = False,
       arg_output_file = ''out.h5'',
       arg_metadata = None,
       arg_truediv = example_truediv \<rparr>"

text \<open>A store of toy data with five records under every file name.\<close>

definition example_reader :: "(nat, real) toydata_reader" where
  "example_reader file w = Inr (([10, 11, 12, 13, 14], None), w)"

definition example_runner :: "(nat, real) runner" where
  "example_runner =
     \<lparr> model = example_model, nominal_values = [], poi = ''mu'',
       hypotheses = [HStr ''free'', HStr ''null''], common_hypothesis = [],
       generate_values = [(''mu'', PBool True)], compute_confidence_interval = True,
       n_mc = 3, toydata_file = ''toy.h5'', toydata_mode = ''generate'',
       output_file = ''out.h5'', only_toydata = False, metadata = [],
       result_names = [''mu'', ''sigma'', ''ll'', ''dl'', ''ul''],
       result_dtype = [''mu'', ''sigma'', ''ll'', ''dl'', ''ul''],
       hypotheses_values = [[], [(''mu'', PFloat (Finite 0))]] \<rparr>"

text \<open>The tables of a run of the example runner.\<close>

definition example_results :: "table list" where
  "example_results =
     [\<lparr>tnames = [''mu'', ''sigma'', ''ll'', ''dl'', ''ul''],
       trows = [[Finite 0, Finite 1, Finite (- 1), Finite (- 2), Finite 2],
                [Finite 0, Finite 1, Finite (- 1), Finite (- 2), Finite 2],
                [Finite 0, Finite 1, Finite (- 1), Finite (- 2), Finite 2]]\<rparr>,
      \<lparr>tnames = [''mu'', ''sigma'', ''ll'', ''dl'', ''ul''],
       trows = [[Finite 0, Finite 1, Finite (- 1), NaN, NaN],
                [Finite 0, Finite 1, Finite (- 1), NaN, NaN],
                [Finite 0, Finite 1, Finite (- 1), NaN, NaN]]\<rparr>]"

lemmas example_defs =
  init_def example_args_def example_model_def or_empty_def common_hypothesis_setter_def
  generate_values_setter_def update_poi_def dict_values_def dict_keys_def get_hypotheses_def
  runner_get_parameter_list_def resolve_hypothesis_def resolve_symbolic_def array_update_def
  dict_update_def

section \<open>Dictionaries and validation\<close>

lemma or_empty_Some [simp]: "or_empty (Some d) = d"
  by (simp add: or_empty_def)

lemma list_all_values_update:
  "list_all P (dict_values d) \<Longrightarrow> P v \<Longrightarrow> list_all P (dict_values (AList.update k v d))"
  by (induction d) (auto simp: dict_values_def)

lemma list_all_values_dict_update:
  "list_all P (dict_values d) \<Longrightarrow> list_all P (dict_values other) \<Longrightarrow>
   list_all P (dict_values (dict_update d other))"
proof (induction other arbitrary: d)
  case Nil
  then show ?case by (simp add: dict_update_def)
next
  case (Cons kv other)
  have "list_all P (dict_values (AList.update (fst kv) (snd kv) d))"
    using Cons.prems by (intro list_all_values_update) (auto simp: dict_values_def)
  moreover have "list_all P (dict_values other)"
    using Cons.prems(2) by (simp add: dict_values_def)
  ultimately have "list_all P (dict_values (dict_update (AList.update (fst kv) (snd kv) d) other))"
    by (rule Cons.IH)
  then show ?case by (simp add: dict_update_def)
qed

lemma generate_values_setter_id:
  "list_all is_float_or_int (dict_values gv) \<Longrightarrow> ''poi_expectation'' \<notin> set (dict_keys gv) \<Longrightarrow>
   generate_values_setter truediv m p nominal gv w = Inr (gv, w)"
  by (simp add: generate_values_setter_def update_poi_def)

lemma init_generate_values:
  assumes "init a w0 = Inr (r, w1)"
  shows "\<exists>wa. generate_values_setter (arg_truediv a) (model r) (poi r) (nominal_values r)
                (or_empty (arg_generate_values a)) wa = Inr (generate_values r, w1)"
  using assms
  by (auto simp: init_def Let_def split: sum.splits prod.splits)

section \<open>Generate-values without \<^verbatim>\<open>poi_expectation\<close>\<close>

text \<open>
  Claim C9. For every mapping of parameter names to numeric values that does not contain the
  key \<^verbatim>\<open>poi_expectation\<close>, the generate-values resolution is the identity: the setter
  stores the supplied mapping unchanged (and leaves the model alone), and a runner constructed
  with that mapping has it as its \<^verbatim>\<open>generate_values\<close>.
\<close>

theorem generate_values_unchanged:
  fixes m :: "('w, 'd) statistical_model" and a :: "('v, 'e) runner_args"
  assumes "list_all is_float_or_int (dict_values gv)"
    and "''poi_expectation'' \<notin> set (dict_keys gv)"
  shows "generate_values_setter truediv m p nominal gv w = Inr (gv, w)
         \<and> (arg_generate_values a = Some gv \<longrightarrow> init a w0 = Inr (r, w1)
               \<longrightarrow> generate_values r = gv)"
proof (intro conjI impI)
  show "generate_values_setter truediv m p nominal gv w = Inr (gv, w)"
    using assms by (rule generate_values_setter_id)
next
  assume a: "arg_generate_values a = Some gv" and i: "init a w0 = Inr (r, w1)"
  from init_generate_values[OF i] a obtain wa where
    s: "generate_values_setter (arg_truediv a) (model r) (poi r) (nominal_values r) gv wa
          = Inr (generate_values r, w1)"
    by auto
  have "generate_values_setter (arg_truediv a) (model r) (poi r) (nominal_values r) gv wa
          = Inr (gv, wa)"
    using assms by (rule generate_values_setter_id)
  with s show "generate_values r = gv"
    by simp
qed

theorem generate_values_unchanged_witness:
  "list_all is_float_or_int (dict_values [(''mu'', PInt 0), (''sigma'', PFloat (Finite 2))])
   \<and> ''poi_expectation'' \<notin> set (dict_keys [(''mu'', PInt 0), (''sigma'', PFloat (Finite 2))])
   \<and> generate_values_setter example_truediv example_model ''mu'' []
        [(''mu'', PInt 0), (''sigma'', PFloat (Finite 2))] (0::nat)
       = Inr ([(''mu'', PInt 0), (''sigma'', PFloat (Finite 2))], 0)
   \<and> (\<exists>r w1. init (example_args\<lparr>arg_generate_values :=
                       Some [(''mu'', PInt 0), (''sigma'', PFloat (Finite 2))]\<rparr>) 0 = Inr (r, w1)
        \<and> generate_values r = [(''mu'', PInt 0), (''sigma'', PFloat (Finite 2))])"
proof -
  let ?gv = "[(''mu'', PInt 0), (''sigma'', PFloat (Finite 2))]"
  let ?a = "example_args\<lparr>arg_generate_values := Some ?gv\<rparr>"
  have h1: "list_all is_float_or_int (dict_values ?gv)" by (simp add: dict_values_def)
  have h2: "''poi_expectation'' \<notin> set (dict_keys ?gv)" by (simp add: dict_keys_def)
  have ex: "\<exists>r w1. init ?a 0 = Inr (r, w1)"
    by (simp add: example_defs)
  then obtain r w1 where i: "init ?a 0 = Inr (r, w1)" by blast
  have a: "arg_generate_values ?a = Some ?gv" by simp
  note t = generate_values_unchanged[OF h1 h2, of example_truediv example_model "''mu''" "[]"
      "0::nat" ?a 0 r w1]
  from t have s: "generate_values_setter example_truediv example_model ''mu'' [] ?gv (0::nat) = Inr (?gv, 0)"
    by (rule conjunct1)
  from t a i have g: "generate_values r = ?gv" by blast
  show ?thesis using h1 h2 s i g by blast
qed

lemma resolve_symbolic_HDict: "resolve_symbolic r (HDict d) = Inr (HDict d)"
  by (simp add: resolve_symbolic_def)

section \<open>Booleans count as numbers\<close>

text \<open>
  Claim C10. The numeric-mapping validation applied to \<^verbatim>\<open>generate_values\<close>,
  \<^verbatim>\<open>common_hypothesis\<close> and every resolved hypothesis accepts Python booleans as values:
  a mapping whose values are booleans, integers or floats passes the check of the
  \<^verbatim>\<open>common_hypothesis\<close> setter, of the \<^verbatim>\<open>generate_values\<close> setter and of the hypothesis
  loop, so that no "should be a dict of float" error is raised.
\<close>

theorem booleans_accepted:
  fixes m :: "('w, 'd) statistical_model" and r :: "('v, 'e) runner"
  assumes "\<forall>v \<in> set (dict_values d). (\<exists>b. v = PBool b) \<or> (\<exists>i. v = PInt i) \<or> (\<exists>f. v = PFloat f)"
  shows "is_float_or_int (PBool b)
         \<and> common_hypothesis_setter d = Inr d
         \<and> (''poi_expectation'' \<notin> set (dict_keys d) \<longrightarrow>
              generate_values_setter truediv m p nominal d w = Inr (d, w))
         \<and> (list_all is_float_or_int (dict_values (common_hypothesis r)) \<longrightarrow>
              resolve_hypothesis r (HDict d) = Inr (dict_update (common_hypothesis r) d))"
proof -
  have num: "list_all is_float_or_int (dict_values d)"
    using assms by (auto simp: list_all_iff)
  have c: "common_hypothesis_setter d = Inr d"
    using num by (simp add: common_hypothesis_setter_def)
  have g: "''poi_expectation'' \<notin> set (dict_keys d) \<Longrightarrow>
             generate_values_setter truediv m p nominal d w = Inr (d, w)"
    using num by (rule generate_values_setter_id)
  have h: "resolve_hypothesis r (HDict d) = Inr (dict_update (common_hypothesis r) d)"
    if "list_all is_float_or_int (dict_values (common_hypothesis r))"
    using list_all_values_dict_update[OF that num]
    by (simp add: resolve_hypothesis_def resolve_symbolic_HDict array_update_def)
  show ?thesis using c g h by simp
qed

theorem booleans_accepted_witness:
  "set (dict_values [(''mu'', PBool True)]) = {PBool True}
   \<and> common_hypothesis_setter [(''mu'', PBool True)] = Inr [(''mu'', PBool True)]
   \<and> ''poi_expectation'' \<notin> set (dict_keys [(''mu'', PBool True)])
   \<and> generate_values_setter example_truediv example_model ''mu'' [] [(''mu'', PBool True)] (0::nat)
        = Inr ([(''mu'', PBool True)], 0)
   \<and> (\<exists>r w1. init example_args 0 = Inr (r, w1)
         \<and> generate_values r = [(''mu'', PBool True)]
         \<and> list_all is_float_or_int (dict_values (common_hypothesis r))
         \<and> resolve_hypothesis r (HDict [(''mu'', PBool True)]) = Inr [(''mu'', PBool True)])"
proof -
  let ?d = "[(''mu'', PBool True)]"
  have h: "\<forall>v \<in> set (dict_values ?d). (\<exists>b. v = PBool b) \<or> (\<exists>i. v = PInt i) \<or> (\<exists>f. v = PFloat f)"
    by (auto simp: dict_values_def)
  have k: "''poi_expectation'' \<notin> set (dict_keys ?d)" by (simp add: dict_keys_def)
  obtain r w1 where i: "init example_args 0 = Inr (r, w1)"
    and g: "generate_values r = ?d" and ch: "common_hypothesis r = []"
    by (simp add: example_defs)
  have c: "list_all is_float_or_int (dict_values (common_hypothesis r))"
    by (simp add: ch dict_values_def)
  note t = booleans_accepted[OF h, of True example_truediv example_model "''mu''" "[]" "0::nat" r]
  from t have "common_hypothesis_setter ?d = Inr ?d" by blast
  moreover from t k have "generate_values_setter example_truediv example_model ''mu'' [] ?d (0::nat) = Inr (?d, 0)"
    by blast
  moreover from t c have "resolve_hypothesis r (HDict ?d) = Inr ?d"
    by (simp add: ch dict_update_def)
  moreover have "set (dict_values ?d) = {PBool True}" by (simp add: dict_values_def)
  ultimately show ?thesis using k i g c by blast
qed

section \<open>Resolution of \<^verbatim>\<open>poi_expectation\<close>\<close>





section \<open>Resolution of the hypotheses\<close>

lemma resolve_symbolic_cong:
  "poi r = poi r' \<Longrightarrow> generate_values r = generate_values r' \<Longrightarrow>
   resolve_symbolic r h = resolve_symbolic r' h"
  by (simp add: resolve_symbolic_def)

lemma resolve_hypothesis_cong:
  "poi r = poi r' \<Longrightarrow> generate_values r = generate_values r' \<Longrightarrow>
   common_hypothesis r = common_hypothesis r' \<Longrightarrow>
   resolve_hypothesis r h = resolve_hypothesis r' h"
  by (simp add: resolve_hypothesis_def resolve_symbolic_cong[of r r'] cong: sum.case_cong)

lemma resolve_hypotheses_cong:
  "poi r = poi r' \<Longrightarrow> generate_values r = generate_values r' \<Longrightarrow>
   common_hypothesis r = common_hypothesis r' \<Longrightarrow>
   resolve_hypotheses r hs = resolve_hypotheses r' hs"
  by (induction hs) (simp_all add: resolve_hypothesis_cong[of r r'] cong: sum.case_cong)

lemma get_hypotheses_cong:
  "poi r = poi r' \<Longrightarrow> generate_values r = generate_values r' \<Longrightarrow>
   common_hypothesis r = common_hypothesis r' \<Longrightarrow> hypotheses r = hypotheses r' \<Longrightarrow>
   compute_confidence_interval r = compute_confidence_interval r' \<Longrightarrow>
   get_hypotheses r = get_hypotheses r'"
  by (simp add: get_hypotheses_def resolve_hypotheses_cong[of r r'])

lemma init_fields:
  assumes "init a w0 = Inr (r, w1)"
  shows "poi r = arg_poi a" and "hypotheses r = arg_hypotheses a"
    and "common_hypothesis r = or_empty (arg_common_hypothesis a)"
    and "compute_confidence_interval r = arg_compute_confidence_interval a"
    and "n_mc r = arg_n_mc a" and "toydata_mode r = arg_toydata_mode a"
    and "only_toydata r = arg_only_toydata a"
    and "result_names r = sort (get_parameter_list (model r)) @ [''ll'', ''dl'', ''ul'']"
    and "result_dtype r = result_names r"
  using assms
  by (auto simp: init_def Let_def runner_get_parameter_list_def common_hypothesis_setter_def
      split: sum.splits prod.splits if_splits)

lemma init_get_hypotheses:
  assumes "init a w0 = Inr (r, w1)"
  shows "get_hypotheses r = Inr (hypotheses_values r)"
proof -
  from assms obtain r0 where g: "get_hypotheses r0 = Inr (hypotheses_values r)"
    and r: "r = r0\<lparr>hypotheses_values := hypotheses_values r\<rparr>"
    by (auto simp: init_def Let_def split: sum.splits prod.splits)
  have "get_hypotheses r = get_hypotheses r0"
    by (rule get_hypotheses_cong) (subst r, simp)+
  with g show ?thesis by simp
qed

lemma resolve_hypotheses_nth:
  "resolve_hypotheses r hs = Inr hvs \<Longrightarrow>
   length hvs = length hs \<and> (\<forall>i<length hs. resolve_hypothesis r (hs ! i) = Inr (hvs ! i))"
proof (induction hs arbitrary: hvs)
  case Nil
  then show ?case by simp
next
  case (Cons h hs)
  from Cons.prems obtain hv rest where h: "resolve_hypothesis r h = Inr hv"
    and rest: "resolve_hypotheses r hs = Inr rest" and hvs: "hvs = hv # rest"
    by (auto split: sum.splits)
  from Cons.IH[OF rest] h hvs show ?case
    by (auto simp: nth_Cons split: nat.splits)
qed

lemma get_hypotheses_resolve:
  "get_hypotheses r = Inr hvs \<Longrightarrow> resolve_hypotheses r (hypotheses r) = Inr hvs"
  by (auto simp: get_hypotheses_def split: if_splits)






lemma init_example: "init example_args 0 = Inr (example_runner, 0)"
  by (simp add: example_defs example_runner_def)



section \<open>Hypothesis lists that are refused\<close>

text \<open>
  Claim C7. Constructing a runner fails when the hypothesis list is empty, and when the
  confidence interval is requested while \<^verbatim>\<open>"free"\<close> is not in the hypothesis list. Once the
  model is built and the two value mappings are accepted, the error is the one that says so
  (\<^verbatim>\<open>hypotheses should not be empty!\<close>, \<^verbatim>\<open>free hypothesis is needed for confidence interval
  calculation!\<close>). Both are raised by \<^verbatim>\<open>__init__\<close>, which has no access to toy data: no toy
  data is read or generated before.
\<close>

theorem construction_rejects_hypotheses:
  fixes a :: "('w, 'd) runner_args"
  shows "(arg_hypotheses a = [] \<longrightarrow> (\<exists>e. init a w = Inl e))
       \<and> (arg_compute_confidence_interval a \<and> HStr ''free'' \<notin> set (arg_hypotheses a) \<longrightarrow>
            (\<exists>e. init a w = Inl e))
       \<and> (arg_statistical_model a (or_empty (arg_nominal_values a)) w = Inr (m, wa)
            \<and> common_hypothesis_setter (or_empty (arg_common_hypothesis a)) = Inr ch
            \<and> generate_values_setter (arg_truediv a) m (arg_poi a) (or_empty (arg_nominal_values a))
                 (or_empty (arg_generate_values a)) wa = Inr (gv, wb) \<longrightarrow>
            (arg_hypotheses a = [] \<longrightarrow> init a w = Inl (ValueError HypothesesEmpty))
            \<and> (arg_hypotheses a \<noteq> [] \<and> arg_compute_confidence_interval a
                  \<and> HStr ''free'' \<notin> set (arg_hypotheses a) \<longrightarrow>
                 init a w = Inl (ValueError FreeNeededForConfidenceInterval)))"
proof -
  have fail: "\<exists>e. init a w = Inl e"
    if "\<And>r w1. init a w = Inr (r, w1) \<Longrightarrow> \<exists>e. get_hypotheses r = Inl e"
  proof (cases "init a w")
    case (Inl e)
    then show ?thesis by blast
  next
    case (Inr x)
    obtain r2 w2 where "x = (r2, w2)" by (cases x)
    with Inr have i: "init a w = Inr (r2, w2)" by simp
    from that[OF i] init_get_hypotheses[OF i] show ?thesis by auto
  qed
  have c1: "\<exists>e. init a w = Inl e" if h: "arg_hypotheses a = []"
  proof (rule fail)
    fix r w1 assume i: "init a w = Inr (r, w1)"
    from init_fields(2)[OF i] h show "\<exists>e. get_hypotheses r = Inl e"
      by (simp add: get_hypotheses_def)
  qed
  have c2: "\<exists>e. init a w = Inl e"
    if h: "arg_compute_confidence_interval a" "HStr ''free'' \<notin> set (arg_hypotheses a)"
  proof (rule fail)
    fix r w1 assume i: "init a w = Inr (r, w1)"
    from init_fields(2,4)[OF i] h show "\<exists>e. get_hypotheses r = Inl e"
      by (simp add: get_hypotheses_def)
  qed
  have c3: "(arg_hypotheses a = [] \<longrightarrow> init a w = Inl (ValueError HypothesesEmpty))
            \<and> (arg_hypotheses a \<noteq> [] \<and> arg_compute_confidence_interval a
                  \<and> HStr ''free'' \<notin> set (arg_hypotheses a) \<longrightarrow>
                 init a w = Inl (ValueError FreeNeededForConfidenceInterval))"
    if "arg_statistical_model a (or_empty (arg_nominal_values a)) w = Inr (m, wa)"
      "common_hypothesis_setter (or_empty (arg_common_hypothesis a)) = Inr ch"
      "generate_values_setter (arg_truediv a) m (arg_poi a) (or_empty (arg_nominal_values a))
                 (or_empty (arg_generate_values a)) wa = Inr (gv, wb)"
    using that by (simp add: init_def Let_def get_hypotheses_def)
  show ?thesis using c1 c2 c3 by blast
qed

theorem construction_rejects_hypotheses_witness:
  "arg_hypotheses (example_args\<lparr>arg_hypotheses := []\<rparr>) = []
   \<and> init (example_args\<lparr>arg_hypotheses := []\<rparr>) 0 = Inl (ValueError HypothesesEmpty)
   \<and> arg_compute_confidence_interval (example_args\<lparr>arg_hypotheses := [HStr ''null'']\<rparr>)
   \<and> HStr ''free'' \<notin> set (arg_hypotheses (example_args\<lparr>arg_hypotheses := [HStr ''null'']\<rparr>))
   \<and> init (example_args\<lparr>arg_hypotheses := [HStr ''null'']\<rparr>) 0
        = Inl (ValueError FreeNeededForConfidenceInterval)"
proof -
  let ?a1 = "example_args\<lparr>arg_hypotheses := []\<rparr>"
  let ?a2 = "example_args\<lparr>arg_hypotheses := [HStr ''null'']\<rparr>"
  let ?gv = "[(''mu'', PBool True)]"
  have s1: "arg_statistical_model ?a1 (or_empty (arg_nominal_values ?a1)) 0 = Inr (example_model, 0)"
    and s2: "arg_statistical_model ?a2 (or_empty (arg_nominal_values ?a2)) 0 = Inr (example_model, 0)"
    by (simp_all add: example_args_def)
  have c1: "common_hypothesis_setter (or_empty (arg_common_hypothesis ?a1)) = Inr []"
    and c2: "common_hypothesis_setter (or_empty (arg_common_hypothesis ?a2)) = Inr []"
    by (simp_all add: example_defs)
  have g1: "generate_values_setter (arg_truediv ?a1) example_model (arg_poi ?a1) (or_empty (arg_nominal_values ?a1))
              (or_empty (arg_generate_values ?a1)) 0 = Inr (?gv, 0)"
    and g2: "generate_values_setter (arg_truediv ?a2) example_model (arg_poi ?a2) (or_empty (arg_nominal_values ?a2))
              (or_empty (arg_generate_values ?a2)) 0 = Inr (?gv, 0)"
    by (simp_all add: example_defs)
  have h1: "arg_hypotheses ?a1 = []" by simp
  have h2: "arg_hypotheses ?a2 \<noteq> []" "arg_compute_confidence_interval ?a2"
    "HStr ''free'' \<notin> set (arg_hypotheses ?a2)"
    by (simp_all add: example_args_def)
  from construction_rejects_hypotheses[of ?a1 0 example_model 0 "[]" ?gv 0] s1 c1 g1 h1
  have r1: "init ?a1 0 = Inl (ValueError HypothesesEmpty)" by blast
  from construction_rejects_hypotheses[of ?a2 0 example_model 0 "[]" ?gv 0] s2 c2 g2 h2
  have r2: "init ?a2 0 = Inl (ValueError FreeNeededForConfidenceInterval)" by blast
  show ?thesis using h1 h2 r1 r2 by blast
qed

section \<open>\<^verbatim>\<open>only_toydata\<close> and the toy-data mode\<close>

lemma init_only_toydata:
  assumes i: "init a w0 = Inr (r, w1)"
  shows "init (a\<lparr>arg_only_toydata := b, arg_toydata_mode := md\<rparr>) w0
           = Inr (r\<lparr>only_toydata := b, toydata_mode := md\<rparr>, w1)"
proof -
  let ?a = "a\<lparr>arg_only_toydata := b, arg_toydata_mode := md\<rparr>"
  let ?nominal = "or_empty (arg_nominal_values a)"
  from i obtain m wa ch gv where
    s1: "arg_statistical_model a ?nominal w0 = Inr (m, wa)"
    and s2: "common_hypothesis_setter (or_empty (arg_common_hypothesis a)) = Inr ch"
    and s3: "generate_values_setter (arg_truediv a) m (arg_poi a) ?nominal (or_empty (arg_generate_values a)) wa
               = Inr (gv, w1)"
    by (auto simp: init_def Let_def split: sum.splits prod.splits)
  define R where "R tm ot =
      \<lparr> model = m, nominal_values = ?nominal, poi = arg_poi a,
        hypotheses = arg_hypotheses a, common_hypothesis = ch, generate_values = gv,
        compute_confidence_interval = arg_compute_confidence_interval a,
        n_mc = arg_n_mc a, toydata_file = arg_toydata_file a, toydata_mode = tm,
        output_file = arg_output_file a, only_toydata = ot,
        metadata = or_empty (arg_metadata a),
        result_names = fst (runner_get_parameter_list m),
        result_dtype = snd (runner_get_parameter_list m),
        hypotheses_values = [] \<rparr>" for tm ot
  have e1: "init a w0 = (case get_hypotheses (R (arg_toydata_mode a) (arg_only_toydata a)) of
                Inl e \<Rightarrow> Inl e
              | Inr hv \<Rightarrow> Inr (R (arg_toydata_mode a) (arg_only_toydata a)\<lparr>hypotheses_values := hv\<rparr>, w1))"
    unfolding init_def Let_def R_def using s1 s2 s3 by (simp cong: sum.case_cong)
  have e2: "init ?a w0 = (case get_hypotheses (R md b) of
                Inl e \<Rightarrow> Inl e
              | Inr hv \<Rightarrow> Inr (R md b\<lparr>hypotheses_values := hv\<rparr>, w1))"
    unfolding init_def Let_def R_def using s1 s2 s3 by (simp cong: sum.case_cong)
  have g: "get_hypotheses (R md b) = get_hypotheses (R (arg_toydata_mode a) (arg_only_toydata a))"
    by (rule get_hypotheses_cong) (simp_all add: R_def)
  from i e1 obtain hv where
    h: "get_hypotheses (R (arg_toydata_mode a) (arg_only_toydata a)) = Inr hv"
    and r: "r = R (arg_toydata_mode a) (arg_only_toydata a)\<lparr>hypotheses_values := hv\<rparr>"
    by (auto split: sum.splits)
  have "R md b\<lparr>hypotheses_values := hv\<rparr> = r\<lparr>only_toydata := b, toydata_mode := md\<rparr>"
    by (simp add: r R_def)
  with e2 g h show ?thesis by simp
qed

lemma begin_only_toydata:
  assumes "only_toydata r" and "toydata_mode r \<noteq> ''generate_and_write''"
  shows "data_generator_begin reader r w =
           Inl (ValueError
             (if toydata_mode r \<in> {''read'', ''generate'', ''generate_and_write'', ''no_toydata''}
              then OnlyToydataMode (toydata_mode r) else UnknownToydataMode (toydata_mode r)))"
proof (cases "toydata_mode r \<in> {''read'', ''generate'', ''generate_and_write'', ''no_toydata''}")
  case True
  with assms show ?thesis
    unfolding data_generator_begin_def by (simp only: if_True if_False simp_thms)
next
  case False
  with assms show ?thesis
    unfolding data_generator_begin_def by (simp only: if_True if_False simp_thms)
qed

lemma for_data_generator_begin_fails:
  "data_generator_begin reader r w = Inl e \<Longrightarrow> for_data_generator reader r body acc w = Inl e"
  by (simp add: for_data_generator_def)

lemma simulate_begin_fails:
  "data_generator_begin reader r w = Inl e \<Longrightarrow> simulate reader truthy r w = Inl e"
  by (simp add: simulate_def for_data_generator_begin_fails)

lemma simulate_and_fit_begin_fails:
  "data_generator_begin reader r w = Inl e \<Longrightarrow> \<exists>e'. simulate_and_fit reader r w = Inl e'"
  by (cases "results_init (n_mc r) (result_dtype r) (hypotheses_values r)")
     (simp_all add: simulate_and_fit_def for_data_generator_begin_fails)

lemma simulate_and_fit_begin_fails_exactly:
  "data_generator_begin reader r w = Inl e \<Longrightarrow>
   simulate_and_fit reader r w =
     (case results_init (n_mc r) (result_dtype r) (hypotheses_values r) of
        Inl e0 \<Rightarrow> Inl e0
      | Inr res \<Rightarrow> Inl e)"
  by (cases "results_init (n_mc r) (result_dtype r) (hypotheses_values r)")
     (simp_all add: simulate_and_fit_def for_data_generator_begin_fails)

text \<open>
  As stated, C5 says that construction fails for \<^verbatim>\<open>only_toydata=True\<close> with a mode other than
  \<^verbatim>\<open>generate_and_write\<close>. \<^verbatim>\<open>__init__\<close> only stores the two arguments: the example arguments
  with \<^verbatim>\<open>only_toydata=True\<close> and mode \<^verbatim>\<open>generate\<close> construct a runner.
\<close>

theorem only_toydata_construction_counterexample:
  "arg_only_toydata (example_args\<lparr>arg_only_toydata := True\<rparr>)
   \<and> arg_toydata_mode (example_args\<lparr>arg_only_toydata := True\<rparr>) \<noteq> ''generate_and_write''
   \<and> init (example_args\<lparr>arg_only_toydata := True\<rparr>) 0
       = Inr (example_runner\<lparr>only_toydata := True\<rparr>, 0)"
  by (simp add: example_defs example_runner_def)

text \<open>
  Claim C5, amended. Construction does not look at the combination: if the arguments construct
  a runner, so do they with \<^verbatim>\<open>only_toydata=True\<close> and any toy-data mode. The combination is
  refused by \<^verbatim>\<open>data_generator\<close> when it is first advanced: for a runner with \<^verbatim>\<open>only_toydata\<close>
  set and a mode other than \<^verbatim>\<open>generate_and_write\<close>, the generator raises a \<^verbatim>\<open>ValueError\<close>
  before it reads or generates any toy data, whatever its consumer, whatever the toy-data
  file holds and whatever the model does. So \<^verbatim>\<open>simulate\<close> fails with that \<^verbatim>\<open>ValueError\<close>,
  and \<^verbatim>\<open>simulate_and_fit\<close> fails before its first iteration: with that \<^verbatim>\<open>ValueError\<close> once
  its result tables are allocated, and with the error of \<^verbatim>\<open>np.zeros\<close> when the allocation,
  which comes first, fails.
\<close>

theorem only_toydata_checked_by_generator:
  fixes r :: "('w, 'd) runner" and a :: "('v, 'e) runner_args"
    and body :: "nat \<Rightarrow> 'd option \<Rightarrow> 'a \<Rightarrow> 'w \<Rightarrow> error + (('a \<times> bool) \<times> 'w)"
  shows "(init a w0 = Inr (r0, w1) \<longrightarrow>
            init (a\<lparr>arg_only_toydata := True, arg_toydata_mode := md\<rparr>) w0
              = Inr (r0\<lparr>only_toydata := True, toydata_mode := md\<rparr>, w1))
       \<and> (only_toydata r \<and> toydata_mode r \<noteq> ''generate_and_write'' \<longrightarrow>
            (let e = ValueError
                  (if toydata_mode r \<in> {''read'', ''generate'', ''generate_and_write'', ''no_toydata''}
                   then OnlyToydataMode (toydata_mode r)
                   else UnknownToydataMode (toydata_mode r))
             in data_generator_begin reader r w = Inl e
                \<and> for_data_generator reader r body acc w = Inl e
                \<and> simulate reader truthy r w = Inl e
                \<and> simulate_and_fit reader r w =
                      (case results_init (n_mc r) (result_dtype r) (hypotheses_values r) of
                         Inl e0 \<Rightarrow> Inl e0
                       | Inr res \<Rightarrow> Inl e))
            \<and> (\<exists>e. simulate_and_fit reader r w = Inl e))"
proof (intro conjI impI)
  assume "init a w0 = Inr (r0, w1)"
  then show "init (a\<lparr>arg_only_toydata := True, arg_toydata_mode := md\<rparr>) w0
              = Inr (r0\<lparr>only_toydata := True, toydata_mode := md\<rparr>, w1)"
    by (rule init_only_toydata)
next
  assume h: "only_toydata r \<and> toydata_mode r \<noteq> ''generate_and_write''"
  let ?e = "ValueError
                  (if toydata_mode r \<in> {''read'', ''generate'', ''generate_and_write'', ''no_toydata''}
                   then OnlyToydataMode (toydata_mode r)
                   else UnknownToydataMode (toydata_mode r))"
  from h have b: "data_generator_begin reader r w = Inl ?e"
    by (intro begin_only_toydata) simp_all
  note f = for_data_generator_begin_fails[OF b, of body acc]
  note s = simulate_begin_fails[OF b, of truthy]
  note x = simulate_and_fit_begin_fails_exactly[OF b]
  from b f s x
  show "let e = ?e in data_generator_begin reader r w = Inl e
                \<and> for_data_generator reader r body acc w = Inl e
                \<and> simulate reader truthy r w = Inl e
                \<and> simulate_and_fit reader r w =
                      (case results_init (n_mc r) (result_dtype r) (hypotheses_values r) of
                         Inl e0 \<Rightarrow> Inl e0
                       | Inr res \<Rightarrow> Inl e)"
    unfolding Let_def by (intro conjI)
  from b show "\<exists>e. simulate_and_fit reader r w = Inl e"
    by (rule simulate_and_fit_begin_fails)
qed

theorem only_toydata_checked_by_generator_witness:
  "init example_args 0 = Inr (example_runner, 0)
   \<and> init (example_args\<lparr>arg_only_toydata := True, arg_toydata_mode := ''generate''\<rparr>) 0
        = Inr (example_runner\<lparr>only_toydata := True, toydata_mode := ''generate''\<rparr>, 0)
   \<and> only_toydata (example_runner\<lparr>only_toydata := True\<rparr>)
   \<and> toydata_mode (example_runner\<lparr>only_toydata := True\<rparr>) \<noteq> ''generate_and_write''
   \<and> simulate example_reader (\<lambda>d. True) (example_runner\<lparr>only_toydata := True\<rparr>) 0
        = Inl (ValueError (OnlyToydataMode ''generate''))
   \<and> simulate_and_fit example_reader (example_runner\<lparr>only_toydata := True\<rparr>) 0
        = Inl (ValueError (OnlyToydataMode ''generate''))"
proof -
  let ?r = "example_runner\<lparr>only_toydata := True\<rparr>"
  have m: "toydata_mode ?r = ''generate''" by (simp add: example_runner_def)
  have h: "only_toydata ?r \<and> toydata_mode ?r \<noteq> ''generate_and_write''"
    by (simp add: m)
  note t = only_toydata_checked_by_generator[of example_args 0 example_runner 0 "''generate''"
      ?r example_reader 0 "simulate_and_fit_body ?r" "[]" "\<lambda>d. True"]
  note i = t[THEN conjunct1, THEN mp, OF init_example]
  note c = t[THEN conjunct2, THEN mp, OF h, THEN conjunct1, unfolded Let_def]
  have e: "(if toydata_mode ?r \<in> {''read'', ''generate'', ''generate_and_write'', ''no_toydata''}
            then OnlyToydataMode (toydata_mode ?r) else UnknownToydataMode (toydata_mode ?r))
           = OnlyToydataMode ''generate''"
    unfolding m by simp
  note s = c[THEN conjunct2, THEN conjunct2, THEN conjunct1, unfolded e]
  note sf = c[THEN conjunct2, THEN conjunct2, THEN conjunct2, unfolded e]
  have "\<exists>res. results_init (n_mc ?r) (result_dtype ?r) (hypotheses_values ?r) = Inr res"
    by (simp add: example_runner_def np_zeros_def)
  then obtain res where
    ri: "results_init (n_mc ?r) (result_dtype ?r) (hypotheses_values ?r) = Inr res" ..
  have sf': "simulate_and_fit example_reader ?r 0 = Inl (ValueError (OnlyToydataMode ''generate''))"
    unfolding sf ri by simp
  show ?thesis
    apply (intro conjI)
         apply (rule init_example)
        apply (rule i)
       apply (rule h[THEN conjunct1])
      apply (rule h[THEN conjunct2])
     apply (rule s)
    apply (rule sf')
    done
qed

section \<open>Reading stored toy data\<close>

lemma begin_read:
  assumes "toydata_mode r = ''read''" and "\<not> only_toydata r"
    and "reader (toydata_file r) w = Inr ((td, names), w')"
  shows "data_generator_begin reader r w =
           (if int (length td) < n_mc r
              then Inl (ValueError (FewerToydata (length td) (n_mc r)))
            else if int (length td) > n_mc r
              then Inr ((td, names, [MoreToydata (length td) (n_mc r)]), w')
            else Inr ((td, names, []), w'))"
  using assms by (simp add: data_generator_begin_def)

lemma step_read:
  assumes "toydata_mode r = ''read''" and "i < length td"
  shows "data_generator_step r i td w = Inr ((Some (td ! i), td), w)"
  using assms by (simp add: data_generator_step_def)

lemma end_read:
  assumes "toydata_mode r = ''read''"
  shows "data_generator_end r td names w = Inr w"
  using assms by (simp add: data_generator_end_def)

lemma consume_collect_read:
  assumes "toydata_mode r = ''read''" and "\<forall>i \<in> set is. i < length td"
  shows "consume_generator r collect_body is td acc w
           = Inr ((True, td, acc @ map (\<lambda>i. Some (td ! i)) is), w)"
  using assms(2)
proof (induction "is" arbitrary: acc)
  case Nil
  then show ?case by simp
next
  case (Cons i rest)
  then have i: "i < length td" and rest: "\<forall>i \<in> set rest. i < length td" by simp_all
  have "consume_generator r collect_body (i # rest) td acc w
          = consume_generator r collect_body rest td (acc @ [Some (td ! i)]) w"
    by (simp add: step_read[OF assms(1) i] collect_body_def)
  then show ?case
    using Cons.IH[OF rest, of "acc @ [Some (td ! i)]"] by simp
qed

lemma map_nth_take: "n \<le> length xs \<Longrightarrow> map (\<lambda>i. f (xs ! i)) [0..<n] = map f (take n xs)"
  by (rule nth_equalityI) simp_all

lemma for_data_generator_warns:
  assumes "data_generator_begin reader r w = Inr ((td, names, warns), w1)"
    and "for_data_generator reader r body acc w = Inr ((acc', warns'), w')"
  shows "warns' = warns"
  using assms by (auto simp: for_data_generator_def split: sum.splits prod.splits if_splits)

text \<open>
  Claim C6. In \<^verbatim>\<open>read\<close> mode (with \<^verbatim>\<open>only_toydata\<close> off and a toy-data file that can be read):
  if the file holds fewer records than \<^verbatim>\<open>n_mc\<close>, the generator raises at its first request,
  whatever the consumer's loop body is, so \<^verbatim>\<open>simulate_and_fit\<close> fails before any fit; if it
  holds more, the generator warns once, yields exactly the records \<open>0 .. n_mc - 1\<close> in order,
  record \<open>i\<close> at iteration \<open>i\<close>, and raises nothing by itself.
\<close>

theorem read_mode_record_count:
  fixes r :: "('w, 'd) runner"
    and body :: "nat \<Rightarrow> 'd option \<Rightarrow> 'a \<Rightarrow> 'w \<Rightarrow> error + (('a \<times> bool) \<times> 'w)"
  assumes "toydata_mode r = ''read''" and "\<not> only_toydata r"
    and "reader (toydata_file r) w = Inr ((td, names), w')"
  shows "(int (length td) < n_mc r \<longrightarrow>
            for_data_generator reader r body acc w
              = Inl (ValueError (FewerToydata (length td) (n_mc r)))
            \<and> (\<exists>e. simulate_and_fit reader r w = Inl e)
            \<and> (\<forall>res. results_init (n_mc r) (result_dtype r) (hypotheses_values r) = Inr res \<longrightarrow>
                  simulate_and_fit reader r w
                    = Inl (ValueError (FewerToydata (length td) (n_mc r)))))
       \<and> (int (length td) > n_mc r \<longrightarrow>
            data_generator_list reader r w
              = Inr ((map Some (take (nat (n_mc r)) td),
                      [MoreToydata (length td) (n_mc r)]), w')
            \<and> (\<forall>i w1. i < nat (n_mc r) \<longrightarrow>
                  data_generator_step r i td w1 = Inr ((Some (td ! i), td), w1))
            \<and> (\<forall>res warns w2. simulate_and_fit reader r w = Inr ((res, warns), w2) \<longrightarrow>
                  warns = [MoreToydata (length td) (n_mc r)]))"
proof (intro conjI impI allI)
  assume less: "int (length td) < n_mc r"
  have b: "data_generator_begin reader r w = Inl (ValueError (FewerToydata (length td) (n_mc r)))"
    using begin_read[where reader = reader and w = w, OF assms] less by simp
  show "for_data_generator reader r body acc w
              = Inl (ValueError (FewerToydata (length td) (n_mc r)))"
    using b by (rule for_data_generator_begin_fails)
  show "\<exists>e. simulate_and_fit reader r w = Inl e"
    using b by (rule simulate_and_fit_begin_fails)
  fix res assume "results_init (n_mc r) (result_dtype r) (hypotheses_values r) = Inr res"
  then show "simulate_and_fit reader r w = Inl (ValueError (FewerToydata (length td) (n_mc r)))"
    by (simp add: simulate_and_fit_def for_data_generator_begin_fails[OF b])
next
  assume more: "int (length td) > n_mc r"
  let ?n = "nat (n_mc r)"
  have n: "?n \<le> length td" using more by linarith
  have b: "data_generator_begin reader r w
             = Inr ((td, names, [MoreToydata (length td) (n_mc r)]), w')"
    using begin_read[where reader = reader and w = w, OF assms] more by simp
  have "\<forall>i \<in> set [0..<?n]. i < length td" using n by simp
  from consume_collect_read[OF assms(1) this, of "[]" w']
  have c: "consume_generator r collect_body [0..<?n] td [] w'
             = Inr ((True, td, map Some (take ?n td)), w')"
    by (simp add: map_nth_take[OF n])
  show "data_generator_list reader r w
              = Inr ((map Some (take ?n td), [MoreToydata (length td) (n_mc r)]), w')"
    by (simp add: data_generator_list_def for_data_generator_def b c end_read[OF assms(1)])
  {
    fix i w1 assume "i < ?n"
    with n have "i < length td" by simp
    then show "data_generator_step r i td w1 = Inr ((Some (td ! i), td), w1)"
      by (rule step_read[OF assms(1)])
  }
  {
    fix res warns w2 assume s: "simulate_and_fit reader r w = Inr ((res, warns), w2)"
    then obtain res0 where
      "for_data_generator reader r (simulate_and_fit_body r) res0 w = Inr ((res, warns), w2)"
      by (auto simp: simulate_and_fit_def split: sum.splits)
    from for_data_generator_warns[OF b this]
    show "warns = [MoreToydata (length td) (n_mc r)]" .
  }
qed

theorem read_mode_record_count_witness:
  "toydata_mode (example_runner\<lparr>toydata_mode := ''read''\<rparr>) = ''read''
   \<and> \<not> only_toydata (example_runner\<lparr>toydata_mode := ''read''\<rparr>)
   \<and> example_reader (toydata_file (example_runner\<lparr>toydata_mode := ''read''\<rparr>)) 0
        = Inr (([10, 11, 12, 13, 14], None), 0)
   \<and> int (length [10, 11, 12, 13, 14 :: real]) > n_mc (example_runner\<lparr>toydata_mode := ''read''\<rparr>)
   \<and> data_generator_list example_reader (example_runner\<lparr>toydata_mode := ''read''\<rparr>) 0
        = Inr (([Some 10, Some 11, Some 12], [MoreToydata 5 3]), 0)
   \<and> int (length [10, 11, 12, 13, 14 :: real])
        < n_mc (example_runner\<lparr>toydata_mode := ''read'', n_mc := 7\<rparr>)
   \<and> simulate_and_fit example_reader (example_runner\<lparr>toydata_mode := ''read'', n_mc := 7\<rparr>) 0
        = Inl (ValueError (FewerToydata 5 7))"
proof -
  let ?r = "example_runner\<lparr>toydata_mode := ''read''\<rparr>"
  let ?r7 = "example_runner\<lparr>toydata_mode := ''read'', n_mc := 7\<rparr>"
  let ?td = "[10, 11, 12, 13, 14 :: real]"
  have m: "toydata_mode ?r = ''read''" "toydata_mode ?r7 = ''read''" by simp_all
  have o: "\<not> only_toydata ?r" "\<not> only_toydata ?r7" by (simp_all add: example_runner_def)
  have rd: "example_reader (toydata_file ?r) 0 = Inr ((?td, None), 0)"
    "example_reader (toydata_file ?r7) 0 = Inr ((?td, None), 0)"
    by (simp_all add: example_reader_def)
  have n: "n_mc ?r = 3" "n_mc ?r7 = 7" by (simp_all add: example_runner_def)
  have more: "int (length ?td) > n_mc ?r" and less: "int (length ?td) < n_mc ?r7"
    by (simp_all add: n)
  have "\<exists>res. results_init (n_mc ?r7) (result_dtype ?r7) (hypotheses_values ?r7) = Inr res"
    by (simp add: example_runner_def np_zeros_def)
  then obtain res where
    ri: "results_init (n_mc ?r7) (result_dtype ?r7) (hypotheses_values ?r7) = Inr res" ..
  from read_mode_record_count[where reader = example_reader and w = "0::nat",
      OF m(1) o(1) rd(1), of "simulate_and_fit_body ?r" "[]"] more
  have l: "data_generator_list example_reader ?r 0
             = Inr ((map Some (take (nat (n_mc ?r)) ?td), [MoreToydata (length ?td) (n_mc ?r)]), 0)"
    by blast
  have l': "data_generator_list example_reader ?r 0
              = Inr (([Some 10, Some 11, Some 12], [MoreToydata 5 3]), 0)"
    unfolding l n by (simp add: numeral_3_eq_3)
  from read_mode_record_count[where reader = example_reader and w = "0::nat",
      OF m(2) o(2) rd(2), of "simulate_and_fit_body ?r7" "[]"] less ri
  have f: "simulate_and_fit example_reader ?r7 0
             = Inl (ValueError (FewerToydata (length ?td) (n_mc ?r7)))"
    by blast
  have f': "simulate_and_fit example_reader ?r7 0 = Inl (ValueError (FewerToydata 5 7))"
    unfolding f n by simp
  show ?thesis using m o rd more less l' f' by blast
qed

section \<open>The simulate-and-fit loop\<close>

lemma make_row_length: "make_row names fr = Inr row \<Longrightarrow> length row = length names"
  by (induction names arbitrary: row) (auto split: option.splits sum.splits)

lemma make_row_lookup:
  "make_row names fr = Inr row \<Longrightarrow> c \<in> set names \<Longrightarrow> map_of (zip names row) c = map_of fr c"
  by (induction names arbitrary: row) (auto split: option.splits sum.splits)

lemma fit_hypotheses_nth:
  "fit_hypotheses r hvs w = Inr (frs, w') \<Longrightarrow>
   length frs = length hvs
   \<and> (\<forall>j<length hvs. \<exists>wa wb. fit_hypothesis r (hvs ! j) wa = Inr (frs ! j, wb))"
proof (induction hvs arbitrary: w frs)
  case Nil
  then show ?case by simp
next
  case (Cons hv hvs)
  from Cons.prems obtain fr w1 rest where h: "fit_hypothesis r hv w = Inr (fr, w1)"
    and rest: "fit_hypotheses r hvs w1 = Inr (rest, w')" and frs: "frs = fr # rest"
    by (auto split: sum.splits)
  from Cons.IH[OF rest] have len: "length rest = length hvs"
    and nth: "\<And>j. j < length hvs \<Longrightarrow> \<exists>wa wb. fit_hypothesis r (hvs ! j) wa = Inr (rest ! j, wb)"
    by auto
  show ?case
  proof (intro conjI allI impI)
    show "length frs = length (hv # hvs)" using len frs by simp
  next
    fix j assume "j < length (hv # hvs)"
    then show "\<exists>wa wb. fit_hypothesis r ((hv # hvs) ! j) wa = Inr (frs ! j, wb)"
      using h nth frs by (cases j) auto
  qed
qed

lemma assign_results_nth:
  "assign_results names i frs ts = Inr ts' \<Longrightarrow> length frs = length ts \<Longrightarrow>
   length ts' = length ts
   \<and> (\<forall>j<length ts. \<exists>row. make_row names (frs ! j) = Inr row
          \<and> i < length (trows (ts ! j))
          \<and> ts' ! j = (ts ! j)\<lparr>trows := (trows (ts ! j))[i := row]\<rparr>)"
proof (induction frs arbitrary: ts ts')
  case Nil
  then show ?case by simp
next
  case (Cons fr frs)
  from Cons.prems(2) obtain t rest where ts: "ts = t # rest" and len: "length frs = length rest"
    by (cases ts) auto
  from Cons.prems(1) ts obtain row t' rest' where row: "make_row names fr = Inr row"
    and set: "table_set t i row = Inr t'"
    and rest: "assign_results names i frs rest = Inr rest'" and ts': "ts' = t' # rest'"
    by (auto split: sum.splits)
  from set have i: "i < length (trows t)" and t': "t' = t\<lparr>trows := (trows t)[i := row]\<rparr>"
    by (auto simp: table_set_def split: if_splits)
  from Cons.IH[OF rest len] have len': "length rest' = length rest"
    and nth: "\<And>j. j < length rest \<Longrightarrow> \<exists>row. make_row names (frs ! j) = Inr row
          \<and> i < length (trows (rest ! j))
          \<and> rest' ! j = (rest ! j)\<lparr>trows := (trows (rest ! j))[i := row]\<rparr>"
    by auto
  show ?case
  proof (intro conjI allI impI)
    show "length ts' = length ts" using ts ts' len' by simp
  next
    fix j assume "j < length ts"
    then show "\<exists>row. make_row names ((fr # frs) ! j) = Inr row
          \<and> i < length (trows (ts ! j))
          \<and> ts' ! j = (ts ! j)\<lparr>trows := (trows (ts ! j))[i := row]\<rparr>"
      using ts ts' row i t' nth by (cases j) auto
  qed
qed

lemma simulate_and_fit_body_Inr:
  assumes "simulate_and_fit_body r i data res w = Inr ((res1, c), w1)"
    and "length res = length (hypotheses_values r)"
  shows "c \<and> length res1 = length res
       \<and> (\<forall>j<length res. \<exists>fr wa wb row.
              fit_hypothesis r (hypotheses_values r ! j) wa = Inr (fr, wb)
              \<and> make_row (result_names r) fr = Inr row
              \<and> i < length (trows (res ! j))
              \<and> res1 ! j = (res ! j)\<lparr>trows := (trows (res ! j))[i := row]\<rparr>)"
proof -
  from assms(1) obtain wa frs wb where
    f: "fit_hypotheses r (hypotheses_values r) wa = Inr (frs, wb)"
    and a: "assign_results (result_names r) i frs res = Inr res1" and c: "c"
    by (auto simp: simulate_and_fit_body_def split: sum.splits)
  from fit_hypotheses_nth[OF f] have len: "length frs = length (hypotheses_values r)"
    and fit: "\<And>j. j < length (hypotheses_values r) \<Longrightarrow>
                \<exists>wa wb. fit_hypothesis r (hypotheses_values r ! j) wa = Inr (frs ! j, wb)"
    by auto
  from len assms(2) have "length frs = length res" by simp
  from assign_results_nth[OF a this] have len1: "length res1 = length res"
    and row: "\<And>j. j < length res \<Longrightarrow> \<exists>row. make_row (result_names r) (frs ! j) = Inr row
          \<and> i < length (trows (res ! j))
          \<and> res1 ! j = (res ! j)\<lparr>trows := (trows (res ! j))[i := row]\<rparr>"
    by auto
  show ?thesis
  proof (intro conjI allI impI)
    show c by (rule c)
    show "length res1 = length res" by (rule len1)
  next
    fix j assume j: "j < length res"
    with assms(2) have "j < length (hypotheses_values r)" by simp
    from fit[OF this] row[OF j]
    show "\<exists>fr wa wb row.
              fit_hypothesis r (hypotheses_values r ! j) wa = Inr (fr, wb)
              \<and> make_row (result_names r) fr = Inr row
              \<and> i < length (trows (res ! j))
              \<and> res1 ! j = (res ! j)\<lparr>trows := (trows (res ! j))[i := row]\<rparr>"
      by blast
  qed
qed

lemma consume_generator_Cons_Inr:
  assumes "consume_generator r body (i # rest) td acc w = Inr ((fin, td', acc'), w')"
  shows "\<exists>data td1 w1 acc1 c w2.
           data_generator_step r i td w = Inr ((data, td1), w1)
           \<and> body i data acc w1 = Inr ((acc1, c), w2)
           \<and> (if c then consume_generator r body rest td1 acc1 w2 = Inr ((fin, td', acc'), w')
               else \<not> fin \<and> td' = td1 \<and> acc' = acc1 \<and> w' = w2)"
  using assms by (auto split: sum.splits prod.splits if_splits)

lemma simulate_and_fit_loop:
  assumes run: "consume_generator r (simulate_and_fit_body r) is td res w
                  = Inr ((fin, td', res'), w')"
    and len: "length res = length (hypotheses_values r)"
    and shape: "\<forall>t \<in> set res. tnames t = N \<and> length (trows t) = n"
    and dist: "distinct is" and bound: "\<forall>i \<in> set is. i < n" and disj: "D \<inter> set is = {}"
    and inv: "\<forall>j < length (hypotheses_values r). \<forall>i \<in> D.
                \<exists>fr wa wb. fit_hypothesis r (hypotheses_values r ! j) wa = Inr (fr, wb)
                   \<and> make_row (result_names r) fr = Inr (trows (res ! j) ! i)"
  shows "fin \<and> length res' = length (hypotheses_values r)
       \<and> (\<forall>t \<in> set res'. tnames t = N \<and> length (trows t) = n)
       \<and> (\<forall>j < length (hypotheses_values r). \<forall>i \<in> D \<union> set is.
             \<exists>fr wa wb. fit_hypothesis r (hypotheses_values r ! j) wa = Inr (fr, wb)
                \<and> make_row (result_names r) fr = Inr (trows (res' ! j) ! i))"
  using run len shape dist bound disj inv
proof (induction "is" arbitrary: td res w D)
  case Nil
  then show ?case by simp
next
  case (Cons i rest)
  let ?k = "length (hypotheses_values r)"
  let ?P = "\<lambda>j row. \<exists>fr wa wb. fit_hypothesis r (hypotheses_values r ! j) wa = Inr (fr, wb)
                   \<and> make_row (result_names r) fr = Inr row"
  from consume_generator_Cons_Inr[OF Cons.prems(1)] obtain data td1 w1 res1 c w2 where
    body: "simulate_and_fit_body r i data res w1 = Inr ((res1, c), w2)"
    and cont: "if c then consume_generator r (simulate_and_fit_body r) rest td1 res1 w2
                           = Inr ((fin, td', res'), w')
               else \<not> fin \<and> td' = td1 \<and> res' = res1 \<and> w' = w2"
    by blast
  note len = Cons.prems(2)
  from simulate_and_fit_body_Inr[OF body len] have c: c and len1: "length res1 = length res"
    and upd: "\<And>j. j < length res \<Longrightarrow> \<exists>row. ?P j row \<and> i < length (trows (res ! j))
                 \<and> res1 ! j = (res ! j)\<lparr>trows := (trows (res ! j))[i := row]\<rparr>"
    by blast+
  from c cont have run1: "consume_generator r (simulate_and_fit_body r) rest td1 res1 w2
                           = Inr ((fin, td', res'), w')"
    by simp
  have len1': "length res1 = ?k" using len1 len by simp
  have shape1: "\<forall>t \<in> set res1. tnames t = N \<and> length (trows t) = n"
  proof
    fix t assume "t \<in> set res1"
    then obtain j where j: "j < length res1" and t: "t = res1 ! j"
      by (auto simp: in_set_conv_nth)
    from j len1 have j': "j < length res" by simp
    from upd[OF j'] obtain row where "res1 ! j = (res ! j)\<lparr>trows := (trows (res ! j))[i := row]\<rparr>"
      by blast
    moreover from Cons.prems(3) j' have "tnames (res ! j) = N \<and> length (trows (res ! j)) = n"
      by simp
    ultimately show "tnames t = N \<and> length (trows t) = n" using t by simp
  qed
  have i_new: "i \<notin> D" and i_rest: "i \<notin> set rest"
    using Cons.prems(4,6) by auto
  have inv1: "\<forall>j < ?k. \<forall>i' \<in> D \<union> {i}. ?P j (trows (res1 ! j) ! i')"
  proof (intro allI impI ballI)
    fix j i' assume j: "j < ?k" and i': "i' \<in> D \<union> {i}"
    from j len have j': "j < length res" by simp
    from upd[OF j'] obtain row where row: "?P j row" and il: "i < length (trows (res ! j))"
      and r1: "res1 ! j = (res ! j)\<lparr>trows := (trows (res ! j))[i := row]\<rparr>"
      by blast
    show "?P j (trows (res1 ! j) ! i')"
    proof (cases "i' = i")
      case True
      with r1 il have "trows (res1 ! j) ! i' = row" by simp
      with row show ?thesis by simp
    next
      case False
      with i' have d: "i' \<in> D" by simp
      from False r1 have "trows (res1 ! j) ! i' = trows (res ! j) ! i'" by simp
      with Cons.prems(7) j d show ?thesis by simp
    qed
  qed
  have dist1: "distinct rest" using Cons.prems(4) by simp
  have bound1: "\<forall>i \<in> set rest. i < n" using Cons.prems(5) by simp
  have disj1: "(D \<union> {i}) \<inter> set rest = {}" using Cons.prems(6) i_rest by auto
  from Cons.IH[OF run1 len1' shape1 dist1 bound1 disj1 inv1]
  show ?case by (simp add: Un_assoc)
qed

lemma simulate_and_fit_example_cs:
  "simulate_and_fit example_reader example_runner 0
     = Inr (([\<lparr>tnames = [''mu'', ''sigma'', ''ll'', ''dl'', ''ul''],
                trows = [[Finite 0, Finite 1, Finite (- 1), Finite (- 2), Finite 2],
                         [Finite 0, Finite 1, Finite (- 1), Finite (- 2), Finite 2],
                         [Finite 0, Finite 1, Finite (- 1), Finite (- 2), Finite 2]]\<rparr>,
              \<lparr>tnames = [''mu'', ''sigma'', ''ll'', ''dl'', ''ul''],
                trows = [[Finite 0, Finite 1, Finite (- 1), NaN, NaN],
                         [Finite 0, Finite 1, Finite (- 1), NaN, NaN],
                         [Finite 0, Finite 1, Finite (- 1), NaN, NaN]]\<rparr>], []), 3)"
  by code_simp

lemma simulate_and_fit_example:
  "simulate_and_fit example_reader example_runner 0 = Inr ((example_results, []), 3)"
  unfolding example_results_def by (rule simulate_and_fit_example_cs)

lemma results_init_shape:
  "results_init n dt hs = Inr res \<Longrightarrow>
   length res = length hs \<and> (\<forall>t \<in> set res. tnames t = dt \<and> length (trows t) = nat n)"
proof (induction hs arbitrary: res)
  case Nil
  then show ?case by simp
next
  case (Cons h hs)
  from Cons.prems obtain t ts where z: "np_zeros n dt = Inr t"
    and rest: "results_init n dt hs = Inr ts" and res: "res = t # ts"
    by (auto split: sum.splits)
  from z have "tnames t = dt \<and> length (trows t) = nat n"
    by (auto simp: np_zeros_def split: if_splits)
  with Cons.IH[OF rest] res show ?case by simp
qed

lemma simulate_and_fit_Inr:
  assumes "simulate_and_fit reader r w = Inr ((res, warns), w')"
  shows "length res = length (hypotheses_values r)
       \<and> (\<forall>t \<in> set res. tnames t = result_dtype r \<and> length (trows t) = nat (n_mc r))
       \<and> (\<forall>j < length (hypotheses_values r). \<forall>i < nat (n_mc r).
             \<exists>fr wa wb. fit_hypothesis r (hypotheses_values r ! j) wa = Inr (fr, wb)
                \<and> make_row (result_names r) fr = Inr (trows (res ! j) ! i))"
proof -
  from assms obtain res0 where
    z: "results_init (n_mc r) (result_dtype r) (hypotheses_values r) = Inr res0"
    and f: "for_data_generator reader r (simulate_and_fit_body r) res0 w = Inr ((res, warns), w')"
    by (auto simp: simulate_and_fit_def split: sum.splits)
  from f obtain td w1 fin td1 w2 where
    run: "consume_generator r (simulate_and_fit_body r) [0..<nat (n_mc r)] td res0 w1
            = Inr ((fin, td1, res), w2)"
    by (auto simp: for_data_generator_def split: sum.splits prod.splits if_splits)
  from results_init_shape[OF z] have len: "length res0 = length (hypotheses_values r)"
    and shape: "\<forall>t \<in> set res0. tnames t = result_dtype r \<and> length (trows t) = nat (n_mc r)"
    by simp_all
  have inv: "\<forall>j < length (hypotheses_values r). \<forall>i \<in> {}.
                \<exists>fr wa wb. fit_hypothesis r (hypotheses_values r ! j) wa = Inr (fr, wb)
                   \<and> make_row (result_names r) fr = Inr (trows (res0 ! j) ! i)"
    by simp
  from simulate_and_fit_loop[OF run len shape _ _ _ inv]
  show ?thesis by simp
qed

lemma body_round:
  assumes "simulate_and_fit_body r i data res w = Inr ((res1, c), w1)"
    and "length res = length (hypotheses_values r)"
  shows "\<exists>frs. fit_rounds_body r i data acc w = Inr ((acc @ [(i, frs)], True), w1)
           \<and> c \<and> length frs = length res \<and> length res1 = length res
           \<and> (\<forall>j<length res. \<exists>wa wb.
                  fit_hypothesis r (hypotheses_values r ! j) wa = Inr (frs ! j, wb))
           \<and> (\<forall>j<length res. i < length (trows (res ! j))
                 \<and> (\<exists>row. make_row (result_names r) (frs ! j) = Inr row
                       \<and> res1 ! j = (res ! j)\<lparr>trows := (trows (res ! j))[i := row]\<rparr>))"
proof -
  from assms(1) obtain wa frs where
    s: "set_data (model r) data w = Inr wa"
    and f: "fit_hypotheses r (hypotheses_values r) wa = Inr (frs, w1)"
    and a: "assign_results (result_names r) i frs res = Inr res1" and c: "c"
    by (auto simp: simulate_and_fit_body_def split: sum.splits)
  from fit_hypotheses_nth[OF f] have len: "length frs = length (hypotheses_values r)"
    and fits: "\<forall>j<length (hypotheses_values r). \<exists>wa wb.
                 fit_hypothesis r (hypotheses_values r ! j) wa = Inr (frs ! j, wb)"
    by simp_all
  with assms(2) have lf: "length frs = length res" by simp
  from assign_results_nth[OF a lf] have len1: "length res1 = length res"
    and row: "\<And>j. j < length res \<Longrightarrow> \<exists>row. make_row (result_names r) (frs ! j) = Inr row
          \<and> i < length (trows (res ! j))
          \<and> res1 ! j = (res ! j)\<lparr>trows := (trows (res ! j))[i := row]\<rparr>"
    by auto
  have b: "fit_rounds_body r i data acc w = Inr ((acc @ [(i, frs)], True), w1)"
    by (simp add: fit_rounds_body_def s f)
  have r: "\<forall>j<length res. i < length (trows (res ! j))
                 \<and> (\<exists>row. make_row (result_names r) (frs ! j) = Inr row
                       \<and> res1 ! j = (res ! j)\<lparr>trows := (trows (res ! j))[i := row]\<rparr>)"
  proof (intro allI impI)
    fix j assume "j < length res"
    from row[OF this] show "i < length (trows (res ! j))
                 \<and> (\<exists>row. make_row (result_names r) (frs ! j) = Inr row
                       \<and> res1 ! j = (res ! j)\<lparr>trows := (trows (res ! j))[i := row]\<rparr>)"
      by (elim exE conjE) (intro conjI exI, assumption+)
  qed
  from fits assms(2) have fits': "\<forall>j<length res. \<exists>wa wb.
                 fit_hypothesis r (hypotheses_values r ! j) wa = Inr (frs ! j, wb)"
    by simp
  from b c lf len1 fits' r show ?thesis
    by (intro exI[of _ frs] conjI)
qed

lemma loop_other_rows:
  assumes "consume_generator r (simulate_and_fit_body r) is td res w
             = Inr ((fin, td', res'), w')"
    and "length res = length (hypotheses_values r)"
  shows "length res' = length res
       \<and> (\<forall>j<length res. \<forall>i'. i' \<notin> set is \<longrightarrow> trows (res' ! j) ! i' = trows (res ! j) ! i')"
  using assms
proof (induction "is" arbitrary: td res w)
  case Nil
  then show ?case by simp
next
  case (Cons i rest)
  from consume_generator_Cons_Inr[OF Cons.prems(1)] obtain data td1 w1 res1 c w2 where
    body: "simulate_and_fit_body r i data res w1 = Inr ((res1, c), w2)"
    and cont: "if c then consume_generator r (simulate_and_fit_body r) rest td1 res1 w2
                           = Inr ((fin, td', res'), w')
               else \<not> fin \<and> td' = td1 \<and> res' = res1 \<and> w' = w2"
    by blast
  from body_round[OF body Cons.prems(2), of "[]"] obtain frs where c: c
    and len1: "length res1 = length res"
    and upd: "\<forall>j<length res. i < length (trows (res ! j))
                 \<and> (\<exists>row. make_row (result_names r) (frs ! j) = Inr row
                       \<and> res1 ! j = (res ! j)\<lparr>trows := (trows (res ! j))[i := row]\<rparr>)"
    by (elim exE conjE)
  from c cont have run1: "consume_generator r (simulate_and_fit_body r) rest td1 res1 w2
                           = Inr ((fin, td', res'), w')"
    by simp
  from len1 Cons.prems(2) have len1': "length res1 = length (hypotheses_values r)" by simp
  from Cons.IH[OF run1 len1'] have l: "length res' = length res1"
    and o: "\<And>j i'. j < length res1 \<Longrightarrow> i' \<notin> set rest \<Longrightarrow>
              trows (res' ! j) ! i' = trows (res1 ! j) ! i'"
    by simp_all
  show ?case
  proof (intro conjI allI impI)
    show "length res' = length res" using l len1 by simp
  next
    fix j i' assume j: "j < length res" and i': "i' \<notin> set (i # rest)"
    from i' have ne: "i' \<noteq> i" and nr: "i' \<notin> set rest" by simp_all
    from upd j obtain row where "res1 ! j = (res ! j)\<lparr>trows := (trows (res ! j))[i := row]\<rparr>"
      by blast
    with ne have "trows (res1 ! j) ! i' = trows (res ! j) ! i'" by simp
    moreover from j len1 have "j < length res1" by simp
    from o[OF this nr] have "trows (res' ! j) ! i' = trows (res1 ! j) ! i'" .
    ultimately show "trows (res' ! j) ! i' = trows (res ! j) ! i'" by simp
  qed
qed

lemma loop_rounds:
  assumes "consume_generator r (simulate_and_fit_body r) is td res w
             = Inr ((fin, td', res'), w')"
    and "length res = length (hypotheses_values r)"
    and "distinct is"
  shows "\<exists>rounds. consume_generator r (fit_rounds_body r) is td acc w
                     = Inr ((True, td', acc @ rounds), w')
           \<and> fin \<and> map fst rounds = is
           \<and> (\<forall>p<length is. length (snd (rounds ! p)) = length res
                 \<and> (\<forall>j<length res.
                       (\<exists>wa wb. fit_hypothesis r (hypotheses_values r ! j) wa
                                  = Inr (snd (rounds ! p) ! j, wb))
                       \<and> make_row (result_names r) (snd (rounds ! p) ! j)
                           = Inr (trows (res' ! j) ! (is ! p))))"
  using assms
proof (induction "is" arbitrary: td res w acc)
  case Nil
  then show ?case by simp
next
  case (Cons i rest)
  from consume_generator_Cons_Inr[OF Cons.prems(1)] obtain data td1 w1 res1 c w2 where
    step: "data_generator_step r i td w = Inr ((data, td1), w1)"
    and body: "simulate_and_fit_body r i data res w1 = Inr ((res1, c), w2)"
    and cont: "if c then consume_generator r (simulate_and_fit_body r) rest td1 res1 w2
                           = Inr ((fin, td', res'), w')
               else \<not> fin \<and> td' = td1 \<and> res' = res1 \<and> w' = w2"
    by blast
  from body_round[OF body Cons.prems(2), of acc] obtain frs where
    rb: "fit_rounds_body r i data acc w1 = Inr ((acc @ [(i, frs)], True), w2)"
    and c: c and lf: "length frs = length res" and len1: "length res1 = length res"
    and fits: "\<forall>j<length res. \<exists>wa wb.
                 fit_hypothesis r (hypotheses_values r ! j) wa = Inr (frs ! j, wb)"
    and upd: "\<forall>j<length res. i < length (trows (res ! j))
                 \<and> (\<exists>row. make_row (result_names r) (frs ! j) = Inr row
                       \<and> res1 ! j = (res ! j)\<lparr>trows := (trows (res ! j))[i := row]\<rparr>)"
    by (elim exE conjE)
  from c cont have run1: "consume_generator r (simulate_and_fit_body r) rest td1 res1 w2
                           = Inr ((fin, td', res'), w')"
    by simp
  from len1 Cons.prems(2) have len1': "length res1 = length (hypotheses_values r)" by simp
  from Cons.prems(3) have d: "distinct rest" and ni: "i \<notin> set rest" by simp_all
  from Cons.IH[OF run1 len1' d, of "acc @ [(i, frs)]"] obtain rounds where
    rr: "consume_generator r (fit_rounds_body r) rest td1 (acc @ [(i, frs)]) w2
           = Inr ((True, td', (acc @ [(i, frs)]) @ rounds), w')"
    and fin: fin and idx: "map fst rounds = rest"
    and rows: "\<forall>p<length rest. length (snd (rounds ! p)) = length res1
                 \<and> (\<forall>j<length res1.
                       (\<exists>wa wb. fit_hypothesis r (hypotheses_values r ! j) wa
                                  = Inr (snd (rounds ! p) ! j, wb))
                       \<and> make_row (result_names r) (snd (rounds ! p) ! j)
                           = Inr (trows (res' ! j) ! (rest ! p)))"
    by (elim exE conjE)
  from loop_other_rows[OF run1 len1'] ni
  have keep: "\<And>j. j < length res1 \<Longrightarrow> trows (res' ! j) ! i = trows (res1 ! j) ! i"
    by simp
  let ?rounds = "(i, frs) # rounds"
  have run: "consume_generator r (fit_rounds_body r) (i # rest) td acc w
               = Inr ((True, td', acc @ ?rounds), w')"
    using step rb rr by simp
  have first: "make_row (result_names r) (frs ! j) = Inr (trows (res' ! j) ! i)"
    if j: "j < length res" for j
  proof -
    from upd j obtain row where il: "i < length (trows (res ! j))"
      and mr: "make_row (result_names r) (frs ! j) = Inr row"
      and r1: "res1 ! j = (res ! j)\<lparr>trows := (trows (res ! j))[i := row]\<rparr>"
      by blast
    from r1 il have "trows (res1 ! j) ! i = row" by simp
    moreover from j len1 have "j < length res1" by simp
    from keep[OF this] have "trows (res' ! j) ! i = trows (res1 ! j) ! i" .
    ultimately show ?thesis using mr by simp
  qed
  have all: "\<forall>p<length (i # rest). length (snd (?rounds ! p)) = length res
                 \<and> (\<forall>j<length res.
                       (\<exists>wa wb. fit_hypothesis r (hypotheses_values r ! j) wa
                                  = Inr (snd (?rounds ! p) ! j, wb))
                       \<and> make_row (result_names r) (snd (?rounds ! p) ! j)
                           = Inr (trows (res' ! j) ! ((i # rest) ! p)))"
  proof (intro allI impI)
    fix p assume p: "p < length (i # rest)"
    show "length (snd (?rounds ! p)) = length res
                 \<and> (\<forall>j<length res.
                       (\<exists>wa wb. fit_hypothesis r (hypotheses_values r ! j) wa
                                  = Inr (snd (?rounds ! p) ! j, wb))
                       \<and> make_row (result_names r) (snd (?rounds ! p) ! j)
                           = Inr (trows (res' ! j) ! ((i # rest) ! p)))"
    proof (cases p)
      case 0
      then show ?thesis using lf first fits by simp
    next
      case (Suc p')
      with p have "p' < length rest" by simp
      with rows len1 Suc show ?thesis by simp
    qed
  qed
  from run fin idx all show ?case
    by (intro exI[of _ ?rounds] conjI) simp_all
qed

lemma simulate_and_fit_rounds:
  assumes "simulate_and_fit reader r w = Inr ((res, warns), w')"
  shows "\<exists>rounds. fit_rounds reader r w = Inr ((rounds, warns), w')
           \<and> map fst rounds = [0..<nat (n_mc r)]
           \<and> (\<forall>i<nat (n_mc r). length (snd (rounds ! i)) = length (hypotheses_values r)
                 \<and> (\<forall>j<length (hypotheses_values r).
                       (\<exists>wa wb. fit_hypothesis r (hypotheses_values r ! j) wa
                                  = Inr (snd (rounds ! i) ! j, wb))
                       \<and> make_row (result_names r) (snd (rounds ! i) ! j)
                           = Inr (trows (res ! j) ! i)))"
proof -
  let ?n = "nat (n_mc r)"
  from assms obtain res0 where
    z: "results_init (n_mc r) (result_dtype r) (hypotheses_values r) = Inr res0"
    and f: "for_data_generator reader r (simulate_and_fit_body r) res0 w = Inr ((res, warns), w')"
    by (auto simp: simulate_and_fit_def split: sum.splits)
  from f obtain td names w1 where
    b: "data_generator_begin reader r w = Inr ((td, names, warns), w1)"
    by (auto simp: for_data_generator_def split: sum.splits prod.splits if_splits)
  from f b obtain fin td1 w2 where
    run: "consume_generator r (simulate_and_fit_body r) [0..<?n] td res0 w1
            = Inr ((fin, td1, res), w2)"
    and e: "if fin then data_generator_end r td1 names w2 = Inr w' else w' = w2"
    by (auto simp: for_data_generator_def split: sum.splits prod.splits if_splits)
  from results_init_shape[OF z] have len: "length res0 = length (hypotheses_values r)"
    by simp
  have dist: "distinct [0..<?n]" by simp
  from loop_rounds[OF run len dist, of "[]"] obtain rounds where
    rr: "consume_generator r (fit_rounds_body r) [0..<?n] td [] w1
           = Inr ((True, td1, [] @ rounds), w2)"
    and fin: fin and idx: "map fst rounds = [0..<?n]"
    and rows: "\<forall>p<length [0..<?n]. length (snd (rounds ! p)) = length res0
                 \<and> (\<forall>j<length res0.
                       (\<exists>wa wb. fit_hypothesis r (hypotheses_values r ! j) wa
                                  = Inr (snd (rounds ! p) ! j, wb))
                       \<and> make_row (result_names r) (snd (rounds ! p) ! j)
                           = Inr (trows (res ! j) ! ([0..<?n] ! p)))"
    by (elim exE conjE)
  from e fin have e': "data_generator_end r td1 names w2 = Inr w'" by simp
  have "fit_rounds reader r w = Inr ((rounds, warns), w')"
    using b rr e' by (simp add: fit_rounds_def for_data_generator_def)
  moreover have "\<forall>i<?n. length (snd (rounds ! i)) = length (hypotheses_values r)
                 \<and> (\<forall>j<length (hypotheses_values r).
                       (\<exists>wa wb. fit_hypothesis r (hypotheses_values r ! j) wa
                                  = Inr (snd (rounds ! i) ! j, wb))
                       \<and> make_row (result_names r) (snd (rounds ! i) ! j)
                           = Inr (trows (res ! j) ! i))"
    using rows len by simp
  ultimately show ?thesis using idx by (intro exI[of _ rounds] conjI)
qed

lemma table_get_row:
  assumes "tnames t = names" and "i < length (trows t)"
    and "make_row names fr = Inr (trows t ! i)" and "c \<in> set names"
  shows "table_get t i c = map_of fr c"
  using assms make_row_lookup[OF assms(3,4)] by (simp add: table_get_def)

text \<open>
  As stated, C1 takes the columns from the fittable parameters. \<^verbatim>\<open>_get_parameter_list\<close> sorts
  what \<^verbatim>\<open>model.get_parameter_list()\<close> returns, which is every parameter of the model: in the
  example model \<open>sigma\<close> is a parameter that is not fittable, and it is a column of both tables.
\<close>

theorem result_tables_counterexample:
  "init example_args 0 = Inr (example_runner, 0)
   \<and> simulate_and_fit example_reader example_runner 0
     = Inr (([\<lparr>tnames = [''mu'', ''sigma'', ''ll'', ''dl'', ''ul''],
                trows = [[Finite 0, Finite 1, Finite (- 1), Finite (- 2), Finite 2],
                         [Finite 0, Finite 1, Finite (- 1), Finite (- 2), Finite 2],
                         [Finite 0, Finite 1, Finite (- 1), Finite (- 2), Finite 2]]\<rparr>,
              \<lparr>tnames = [''mu'', ''sigma'', ''ll'', ''dl'', ''ul''],
                trows = [[Finite 0, Finite 1, Finite (- 1), NaN, NaN],
                         [Finite 0, Finite 1, Finite (- 1), NaN, NaN],
                         [Finite 0, Finite 1, Finite (- 1), NaN, NaN]]\<rparr>], []), 3)
   \<and> sort (fittable (model example_runner)) @ [''ll'', ''dl'', ''ul'']
       = [''mu'', ''ll'', ''dl'', ''ul'']
   \<and> [''mu'', ''sigma'', ''ll'', ''dl'', ''ul'']
       \<noteq> sort (fittable (model example_runner)) @ [''ll'', ''dl'', ''ul'']"
proof -
  have "sort (fittable (model example_runner)) @ [''ll'', ''dl'', ''ul'']
          = [''mu'', ''ll'', ''dl'', ''ul'']"
    by (simp add: example_runner_def example_model_def)
  then show ?thesis
    using init_example simulate_and_fit_example_cs by simp
qed

lemma result_tables_layout:
  assumes "init a w0 = Inr (r, w1)"
    and "simulate_and_fit reader r w = Inr ((res, warns), w')"
  shows "length res = length (hypotheses_values r)
       \<and> length res = length (arg_hypotheses a)
       \<and> (\<forall>t \<in> set res.
             tnames t = sort (get_parameter_list (model r)) @ [''ll'', ''dl'', ''ul'']
             \<and> length (trows t) = nat (arg_n_mc a)
             \<and> (\<forall>row \<in> set (trows t). length row = length (tnames t)))
       \<and> (\<forall>j < length res. \<forall>i < nat (arg_n_mc a).
             \<exists>fr wa wb. fit_hypothesis r (hypotheses_values r ! j) wa = Inr (fr, wb)
                \<and> make_row (tnames (res ! j)) fr = Inr (trows (res ! j) ! i))"
proof -
  note f = init_fields[OF assms(1)]
  let ?names = "sort (get_parameter_list (model r)) @ [''ll'', ''dl'', ''ul'']"
  from simulate_and_fit_Inr[OF assms(2)] have len: "length res = length (hypotheses_values r)"
    and shape: "\<And>t. t \<in> set res \<Longrightarrow> tnames t = ?names \<and> length (trows t) = nat (arg_n_mc a)"
    and rows: "\<And>j i. j < length res \<Longrightarrow> i < nat (arg_n_mc a) \<Longrightarrow>
                 \<exists>fr wa wb. fit_hypothesis r (hypotheses_values r ! j) wa = Inr (fr, wb)
                   \<and> make_row ?names fr = Inr (trows (res ! j) ! i)"
    by (simp_all add: f)
  from resolve_hypotheses_nth[OF get_hypotheses_resolve[OF init_get_hypotheses[OF assms(1)]]]
  have k: "length (hypotheses_values r) = length (arg_hypotheses a)"
    by (simp add: f)
  have rowlen: "length row = length (tnames t)" if t: "t \<in> set res" and row: "row \<in> set (trows t)"
    for t row
  proof -
    from t obtain j where j: "j < length res" and tj: "t = res ! j"
      by (auto simp: in_set_conv_nth)
    from row obtain i where i: "i < length (trows t)" and ri: "row = trows t ! i"
      by (auto simp: in_set_conv_nth)
    from i shape[OF t] have "i < nat (arg_n_mc a)" by simp
    from rows[OF j this] obtain fr where "make_row ?names fr = Inr (trows (res ! j) ! i)"
      by blast
    from make_row_length[OF this] shape[OF t] tj ri show ?thesis by simp
  qed
  show ?thesis
  proof (intro conjI ballI allI impI)
    show "length res = length (hypotheses_values r)" by (rule len)
    show "length res = length (arg_hypotheses a)" using len k by simp
  next
    fix t assume t: "t \<in> set res"
    from shape[OF t] show "tnames t = ?names" and "length (trows t) = nat (arg_n_mc a)"
      by simp_all
    fix row assume "row \<in> set (trows t)"
    with t show "length row = length (tnames t)" by (rule rowlen)
  next
    fix j i assume j: "j < length res" and i: "i < nat (arg_n_mc a)"
    from j have "res ! j \<in> set res" by simp
    from shape[OF this] rows[OF j i]
    show "\<exists>fr wa wb. fit_hypothesis r (hypotheses_values r ! j) wa = Inr (fr, wb)
                \<and> make_row (tnames (res ! j)) fr = Inr (trows (res ! j) ! i)"
      by simp
  qed
qed

text \<open>
  Claim C1, amended. For a runner constructed with Monte Carlo count \<open>n_mc\<close> and \<open>k\<close>
  hypotheses, whenever \<^verbatim>\<open>simulate_and_fit\<close> returns, it returns exactly \<open>k\<close> tables, one per
  resolved hypothesis in list order; each has exactly \<open>n_mc\<close> rows, and its columns are the
  sorted names returned by the model's \<^verbatim>\<open>get_parameter_list()\<close> followed by \<^verbatim>\<open>ll\<close>, \<^verbatim>\<open>dl\<close>,
  \<^verbatim>\<open>ul\<close>. The rows are in the order of the Monte Carlo repetitions: the run makes the
  iterations \<open>0, \<dots>, n_mc - 1\<close> in this order, and row \<open>i\<close> of table \<open>j\<close> is the record, read in
  column order, of the fit of hypothesis \<open>j\<close> that iteration \<open>i\<close> made.
\<close>

theorem result_tables_shape:
  assumes "init a w0 = Inr (r, w1)"
    and "simulate_and_fit reader r w = Inr ((res, warns), w')"
  shows "length res = length (hypotheses_values r)
       \<and> length res = length (arg_hypotheses a)
       \<and> (\<forall>t \<in> set res.
             tnames t = sort (get_parameter_list (model r)) @ [''ll'', ''dl'', ''ul'']
             \<and> length (trows t) = nat (arg_n_mc a)
             \<and> (\<forall>row \<in> set (trows t). length row = length (tnames t)))
       \<and> (\<forall>j < length res. \<forall>i < nat (arg_n_mc a).
             \<exists>fr wa wb. fit_hypothesis r (hypotheses_values r ! j) wa = Inr (fr, wb)
                \<and> make_row (tnames (res ! j)) fr = Inr (trows (res ! j) ! i))
       \<and> (\<exists>rounds. fit_rounds reader r w = Inr ((rounds, warns), w')
             \<and> map fst rounds = [0..<nat (arg_n_mc a)]
             \<and> (\<forall>i < nat (arg_n_mc a). length (snd (rounds ! i)) = length res
                   \<and> (\<forall>j < length res.
                         (\<exists>wa wb. fit_hypothesis r (hypotheses_values r ! j) wa
                                    = Inr (snd (rounds ! i) ! j, wb))
                         \<and> make_row (tnames (res ! j)) (snd (rounds ! i) ! j)
                             = Inr (trows (res ! j) ! i))))"
proof -
  note f = init_fields[OF assms(1)]
  note old = result_tables_layout[OF assms]
  from old have len: "length res = length (hypotheses_values r)" by (rule conjunct1)
  from old have names: "\<forall>t \<in> set res.
             tnames t = sort (get_parameter_list (model r)) @ [''ll'', ''dl'', ''ul'']
             \<and> length (trows t) = nat (arg_n_mc a)
             \<and> (\<forall>row \<in> set (trows t). length row = length (tnames t))"
    by (rule conjunct2[THEN conjunct2, THEN conjunct1])
  have tn: "tnames (res ! j) = result_names r" if "j < length res" for j
  proof -
    from that have "res ! j \<in> set res" by simp
    with names show ?thesis by (simp add: f)
  qed
  from simulate_and_fit_rounds[OF assms(2)] obtain rounds where
    fr: "fit_rounds reader r w = Inr ((rounds, warns), w')"
    and idx: "map fst rounds = [0..<nat (n_mc r)]"
    and rows: "\<forall>i<nat (n_mc r). length (snd (rounds ! i)) = length (hypotheses_values r)
                 \<and> (\<forall>j<length (hypotheses_values r).
                       (\<exists>wa wb. fit_hypothesis r (hypotheses_values r ! j) wa
                                  = Inr (snd (rounds ! i) ! j, wb))
                       \<and> make_row (result_names r) (snd (rounds ! i) ! j)
                           = Inr (trows (res ! j) ! i))"
    by (elim exE conjE)
  have rows': "\<forall>i < nat (arg_n_mc a). length (snd (rounds ! i)) = length res
                   \<and> (\<forall>j < length res.
                         (\<exists>wa wb. fit_hypothesis r (hypotheses_values r ! j) wa
                                    = Inr (snd (rounds ! i) ! j, wb))
                         \<and> make_row (tnames (res ! j)) (snd (rounds ! i) ! j)
                             = Inr (trows (res ! j) ! i))"
    using rows len tn by (simp add: f(5))
  have idx': "map fst rounds = [0..<nat (arg_n_mc a)]" using idx by (simp add: f(5))
  have new: "\<exists>rounds. fit_rounds reader r w = Inr ((rounds, warns), w')
             \<and> map fst rounds = [0..<nat (arg_n_mc a)]
             \<and> (\<forall>i < nat (arg_n_mc a). length (snd (rounds ! i)) = length res
                   \<and> (\<forall>j < length res.
                         (\<exists>wa wb. fit_hypothesis r (hypotheses_values r ! j) wa
                                    = Inr (snd (rounds ! i) ! j, wb))
                         \<and> make_row (tnames (res ! j)) (snd (rounds ! i) ! j)
                             = Inr (trows (res ! j) ! i)))"
    using fr idx' rows' by (intro exI[of _ rounds] conjI)
  show ?thesis
    apply (intro conjI)
        apply (rule old[THEN conjunct1])
       apply (rule old[THEN conjunct2, THEN conjunct1])
      apply (rule old[THEN conjunct2, THEN conjunct2, THEN conjunct1])
     apply (rule old[THEN conjunct2, THEN conjunct2, THEN conjunct2])
    apply (rule new)
    done
qed

theorem result_tables_shape_witness:
  "init example_args 0 = Inr (example_runner, 0)
   \<and> simulate_and_fit example_reader example_runner 0 = Inr ((example_results, []), 3)
   \<and> length example_results = 2
   \<and> tnames (example_results ! 0) = [''mu'', ''sigma'', ''ll'', ''dl'', ''ul'']
   \<and> tnames (example_results ! 1) = [''mu'', ''sigma'', ''ll'', ''dl'', ''ul'']
   \<and> length (trows (example_results ! 0)) = 3
   \<and> length (trows (example_results ! 1)) = 3
   \<and> (\<exists>rounds. fit_rounds example_reader example_runner 0 = Inr ((rounds, []), 3)
         \<and> map fst rounds = [0, 1, 2]
         \<and> make_row (tnames (example_results ! 1)) (snd (rounds ! 2) ! 1)
             = Inr (trows (example_results ! 1) ! 2))"
proof -
  note t = result_tables_shape[OF init_example simulate_and_fit_example]
  have m: "sort (get_parameter_list (model example_runner)) = [''mu'', ''sigma'']"
    by (simp add: example_runner_def example_model_def)
  have h: "length (arg_hypotheses example_args) = 2" and n: "nat (arg_n_mc example_args) = 3"
    by (simp_all add: example_args_def)
  note l = t[THEN conjunct2, THEN conjunct1, unfolded h]
  have in0: "example_results ! 0 \<in> set example_results"
    and in1: "example_results ! 1 \<in> set example_results"
    by (simp_all add: example_results_def)
  note c = t[THEN conjunct2, THEN conjunct2, THEN conjunct1, unfolded m n]
  note c0 = c[THEN bspec, OF in0]
  note c1 = c[THEN bspec, OF in1]
  have names0: "tnames (example_results ! 0) = [''mu'', ''sigma'', ''ll'', ''dl'', ''ul'']"
    using c0[THEN conjunct1] by simp
  have names1: "tnames (example_results ! 1) = [''mu'', ''sigma'', ''ll'', ''dl'', ''ul'']"
    using c1[THEN conjunct1] by simp
  note r = t[THEN conjunct2, THEN conjunct2, THEN conjunct2, THEN conjunct2, unfolded n]
  then obtain rounds where
    fr: "fit_rounds example_reader example_runner 0 = Inr ((rounds, []), 3)"
    and idx: "map fst rounds = [0..<3]"
    and rows: "\<forall>i<3. length (snd (rounds ! i)) = length example_results
                 \<and> (\<forall>j<length example_results.
                       (\<exists>wa wb. fit_hypothesis example_runner
                                    (hypotheses_values example_runner ! j) wa
                                  = Inr (snd (rounds ! i) ! j, wb))
                       \<and> make_row (tnames (example_results ! j)) (snd (rounds ! i) ! j)
                           = Inr (trows (example_results ! j) ! i))"
    by (elim exE conjE)
  have idx': "map fst rounds = [0, 1, 2]"
    using idx by (simp add: upt_rec)
  have j1: "(1::nat) < length example_results" and i2: "(2::nat) < 3"
    by (simp_all add: l)
  note row = rows[THEN spec, THEN mp, OF i2, THEN conjunct2, THEN spec, THEN mp, OF j1,
      THEN conjunct2]
  from fr idx' row have e: "\<exists>rounds. fit_rounds example_reader example_runner 0
                                     = Inr ((rounds, []), 3)
         \<and> map fst rounds = [0, 1, 2]
         \<and> make_row (tnames (example_results ! 1)) (snd (rounds ! 2) ! 1)
             = Inr (trows (example_results ! 1) ! 2)"
    by (intro exI[of _ rounds] conjI)
  show ?thesis
    apply (intro conjI)
           apply (rule init_example)
          apply (rule simulate_and_fit_example)
         apply (rule l)
        apply (rule names0)
       apply (rule names1)
      apply (rule c0[THEN conjunct2, THEN conjunct1])
     apply (rule c1[THEN conjunct2, THEN conjunct1])
    apply (rule e)
    done
qed

section \<open>Confidence interval bounds\<close>

lemma fit_hypothesis_ci:
  assumes "fit_hypothesis r hv w = Inr (fr, w')"
    and "compute_confidence_interval r \<and> poi r \<notin> set (dict_keys hv)"
  shows "\<exists>fit_result max_llh w1 dl ul.
           fit (model r) hv w = Inr ((fit_result, max_llh), w1)
           \<and> confidence_interval (model r) (poi r) (hypotheses_values r ! 0) hv w1
               = Inr ((dl, ul), w')
           \<and> map_of fr ''dl'' = Some dl \<and> map_of fr ''ul'' = Some ul"
proof -
  from assms have sub: "set (dict_keys hv) - set (fittable (model r)) = {}"
    by (auto simp: fit_hypothesis_def split: if_splits)
  from assms sub obtain fit_result max_llh w1 where
    f: "fit (model r) hv w = Inr ((fit_result, max_llh), w1)"
    by (auto simp: fit_hypothesis_def split: if_splits sum.splits)
  from assms sub f obtain best others dl ul where
      h: "hypotheses_values r = best # others"
      and c: "confidence_interval (model r) (poi r) best hv w1 = Inr ((dl, ul), w')"
      and fr: "fr = AList.update ''ul'' ul (AList.update ''dl'' dl (AList.update ''ll'' max_llh fit_result))"
    by (auto simp: fit_hypothesis_def split: if_splits sum.splits list.splits)
  have "map_of fr ''dl'' = Some dl" "map_of fr ''ul'' = Some ul"
    by (simp_all add: fr update_conv')
  with f c h show ?thesis by simp
qed

lemma fit_hypothesis_no_ci:
  assumes "fit_hypothesis r hv w = Inr (fr, w')"
    and "\<not> (compute_confidence_interval r \<and> poi r \<notin> set (dict_keys hv))"
  shows "\<exists>fit_result max_llh.
           fit (model r) hv w = Inr ((fit_result, max_llh), w')
           \<and> map_of fr ''dl'' = Some NaN \<and> map_of fr ''ul'' = Some NaN"
proof -
  from assms have sub: "set (dict_keys hv) - set (fittable (model r)) = {}"
    by (auto simp: fit_hypothesis_def split: if_splits)
  from assms sub obtain fit_result max_llh w1 where
    f: "fit (model r) hv w = Inr ((fit_result, max_llh), w1)"
    by (auto simp: fit_hypothesis_def split: if_splits sum.splits)
  from assms sub f have
      w: "w' = w1"
      and fr: "fr = AList.update ''ul'' NaN (AList.update ''dl'' NaN (AList.update ''ll'' max_llh fit_result))"
    by (auto simp: fit_hypothesis_def split: if_splits sum.splits list.splits)
  have "map_of fr ''dl'' = Some NaN" "map_of fr ''ul'' = Some NaN"
    by (simp_all add: fr update_conv')
  with f w show ?thesis by simp
qed

text \<open>
  Claim C4. In the simulate-and-fit loop, for every Monte Carlo iteration \<open>i\<close> and every
  hypothesis \<open>j\<close>: when the confidence interval is enabled and the parameter of interest is
  not a key of the hypothesis, the pair in columns \<^verbatim>\<open>dl\<close>, \<^verbatim>\<open>ul\<close> of row \<open>i\<close> of table \<open>j\<close> is a
  result of the model's \<^verbatim>\<open>confidence_interval\<close> called with the parameter of interest, the
  first resolved hypothesis as best-fit arguments and hypothesis \<open>j\<close> as constraints; in every
  other case both are NaN. In one round of the loop the call is made on the state the fit left,
  and in the other case the model is not called after the fit.
\<close>

theorem confidence_interval_bounds:
  assumes "init a w0 = Inr (r, w1)"
    and "simulate_and_fit reader r w = Inr ((res, warns), w')"
    and "j < length (hypotheses_values r)" and "i < nat (n_mc r)"
  shows "(if compute_confidence_interval r \<and> poi r \<notin> set (dict_keys (hypotheses_values r ! j))
          then \<exists>wa wb dl ul.
                 confidence_interval (model r) (poi r) (hypotheses_values r ! 0)
                   (hypotheses_values r ! j) wa = Inr ((dl, ul), wb)
                 \<and> table_get (res ! j) i ''dl'' = Some dl
                 \<and> table_get (res ! j) i ''ul'' = Some ul
          else table_get (res ! j) i ''dl'' = Some NaN
                 \<and> table_get (res ! j) i ''ul'' = Some NaN)
       \<and> (\<forall>hv ws fr ws'. fit_hypothesis r hv ws = Inr (fr, ws') \<longrightarrow>
            (\<exists>fit_result max_llh wf. fit (model r) hv ws = Inr ((fit_result, max_llh), wf)
               \<and> (if compute_confidence_interval r \<and> poi r \<notin> set (dict_keys hv)
                   then \<exists>dl ul. confidence_interval (model r) (poi r) (hypotheses_values r ! 0)
                                   hv wf = Inr ((dl, ul), ws')
                          \<and> map_of fr ''dl'' = Some dl \<and> map_of fr ''ul'' = Some ul
                   else ws' = wf \<and> map_of fr ''dl'' = Some NaN \<and> map_of fr ''ul'' = Some NaN)))"
proof (intro conjI allI impI)
  note f = init_fields[OF assms(1)]
  let ?t = "res ! j" and ?hv = "hypotheses_values r ! j"
  from simulate_and_fit_Inr[OF assms(2)] assms(3,4)
  have len: "length res = length (hypotheses_values r)"
    and shape: "tnames ?t = result_names r" "length (trows ?t) = nat (n_mc r)"
    and "\<exists>fr wa wb. fit_hypothesis r ?hv wa = Inr (fr, wb)
                \<and> make_row (result_names r) fr = Inr (trows ?t ! i)"
    by (simp_all add: f)
  then obtain fr wa wb where fit: "fit_hypothesis r ?hv wa = Inr (fr, wb)"
    and row: "make_row (result_names r) fr = Inr (trows ?t ! i)"
    by blast
  have i: "i < length (trows ?t)" using shape assms(4) by simp
  have names: "''dl'' \<in> set (result_names r)" "''ul'' \<in> set (result_names r)"
    by (simp_all add: f)
  have dl: "table_get ?t i ''dl'' = map_of fr ''dl''"
    and ul: "table_get ?t i ''ul'' = map_of fr ''ul''"
    using table_get_row[OF shape(1) i row] names by simp_all
  show "if compute_confidence_interval r \<and> poi r \<notin> set (dict_keys ?hv)
          then \<exists>wa wb dl ul.
                 confidence_interval (model r) (poi r) (hypotheses_values r ! 0) ?hv wa
                   = Inr ((dl, ul), wb)
                 \<and> table_get ?t i ''dl'' = Some dl \<and> table_get ?t i ''ul'' = Some ul
          else table_get ?t i ''dl'' = Some NaN \<and> table_get ?t i ''ul'' = Some NaN"
  proof (cases "compute_confidence_interval r \<and> poi r \<notin> set (dict_keys ?hv)")
    case True
    from fit_hypothesis_ci[OF fit True] obtain wf dl' ul' where
      "confidence_interval (model r) (poi r) (hypotheses_values r ! 0) ?hv wf
         = Inr ((dl', ul'), wb)"
      "map_of fr ''dl'' = Some dl'" "map_of fr ''ul'' = Some ul'"
      by blast
    then have "\<exists>wa wb dl ul.
                 confidence_interval (model r) (poi r) (hypotheses_values r ! 0) ?hv wa
                   = Inr ((dl, ul), wb)
                 \<and> table_get ?t i ''dl'' = Some dl \<and> table_get ?t i ''ul'' = Some ul"
      unfolding dl ul by blast
    with True show ?thesis by (simp only: if_True if_False simp_thms)
  next
    case False
    from fit_hypothesis_no_ci[OF fit False]
    have "table_get ?t i ''dl'' = Some NaN \<and> table_get ?t i ''ul'' = Some NaN"
      unfolding dl ul by blast
    with False show ?thesis by (simp only: if_True if_False simp_thms)
  qed
next
  fix hv ws fr ws' assume fit: "fit_hypothesis r hv ws = Inr (fr, ws')"
  show "\<exists>fit_result max_llh wf. fit (model r) hv ws = Inr ((fit_result, max_llh), wf)
               \<and> (if compute_confidence_interval r \<and> poi r \<notin> set (dict_keys hv)
                   then \<exists>dl ul. confidence_interval (model r) (poi r) (hypotheses_values r ! 0)
                                   hv wf = Inr ((dl, ul), ws')
                          \<and> map_of fr ''dl'' = Some dl \<and> map_of fr ''ul'' = Some ul
                   else ws' = wf \<and> map_of fr ''dl'' = Some NaN \<and> map_of fr ''ul'' = Some NaN)"
  proof (cases "compute_confidence_interval r \<and> poi r \<notin> set (dict_keys hv)")
    case True
    from fit_hypothesis_ci[OF fit True] obtain fit_result max_llh wf dl ul where
      "fit (model r) hv ws = Inr ((fit_result, max_llh), wf)"
      "confidence_interval (model r) (poi r) (hypotheses_values r ! 0) hv wf = Inr ((dl, ul), ws')"
      "map_of fr ''dl'' = Some dl" "map_of fr ''ul'' = Some ul"
      by blast
    then have "\<exists>fit_result max_llh wf. fit (model r) hv ws = Inr ((fit_result, max_llh), wf)
               \<and> (\<exists>dl ul. confidence_interval (model r) (poi r) (hypotheses_values r ! 0)
                                   hv wf = Inr ((dl, ul), ws')
                          \<and> map_of fr ''dl'' = Some dl \<and> map_of fr ''ul'' = Some ul)"
      by blast
    with True show ?thesis by (simp only: if_True if_False simp_thms)
  next
    case False
    from fit_hypothesis_no_ci[OF fit False] obtain fit_result max_llh where
      "fit (model r) hv ws = Inr ((fit_result, max_llh), ws')"
      "map_of fr ''dl'' = Some NaN" "map_of fr ''ul'' = Some NaN"
      by blast
    then have "\<exists>fit_result max_llh wf. fit (model r) hv ws = Inr ((fit_result, max_llh), wf)
               \<and> (ws' = wf \<and> map_of fr ''dl'' = Some NaN \<and> map_of fr ''ul'' = Some NaN)"
      by blast
    with False show ?thesis by (simp only: if_True if_False simp_thms)
  qed
qed

theorem confidence_interval_bounds_witness:
  "init example_args 0 = Inr (example_runner, 0)
   \<and> simulate_and_fit example_reader example_runner 0 = Inr ((example_results, []), 3)
   \<and> 1 < length (hypotheses_values example_runner) \<and> 2 < nat (n_mc example_runner)
   \<and> compute_confidence_interval example_runner
   \<and> poi example_runner \<notin> set (dict_keys (hypotheses_values example_runner ! 0))
   \<and> confidence_interval (model example_runner) (poi example_runner)
        (hypotheses_values example_runner ! 0) (hypotheses_values example_runner ! 0) (0::nat)
        = Inr ((Finite (- 2), Finite 2), 0)
   \<and> table_get (example_results ! 0) 2 ''dl'' = Some (Finite (- 2))
   \<and> table_get (example_results ! 0) 2 ''ul'' = Some (Finite 2)
   \<and> poi example_runner \<in> set (dict_keys (hypotheses_values example_runner ! 1))
   \<and> table_get (example_results ! 1) 2 ''dl'' = Some NaN
   \<and> table_get (example_results ! 1) 2 ''ul'' = Some NaN"
proof -
  have j: "0 < length (hypotheses_values example_runner)"
    "1 < length (hypotheses_values example_runner)"
    and i: "2 < nat (n_mc example_runner)"
    and c: "compute_confidence_interval example_runner"
    and p0: "poi example_runner \<notin> set (dict_keys (hypotheses_values example_runner ! 0))"
    and p1: "poi example_runner \<in> set (dict_keys (hypotheses_values example_runner ! 1))"
    by (simp_all add: example_runner_def dict_keys_def)
  have ci: "confidence_interval (model example_runner) (poi example_runner)
        (hypotheses_values example_runner ! 0) (hypotheses_values example_runner ! 0) (0::nat)
        = Inr ((Finite (- 2), Finite 2), 0)"
    by (simp add: example_runner_def example_model_def)
  note t0 = confidence_interval_bounds[OF init_example simulate_and_fit_example j(1) i]
  note t1 = confidence_interval_bounds[OF init_example simulate_and_fit_example j(2) i]
  from t1 p1 have n: "table_get (example_results ! 1) 2 ''dl'' = Some NaN
                      \<and> table_get (example_results ! 1) 2 ''ul'' = Some NaN"
    by (simp only: if_True if_False simp_thms)
  from t0 c p0 have "\<exists>wa wb dl ul.
        confidence_interval (model example_runner) (poi example_runner)
          (hypotheses_values example_runner ! 0) (hypotheses_values example_runner ! 0) wa
          = Inr ((dl, ul), wb)
        \<and> table_get (example_results ! 0) 2 ''dl'' = Some dl
        \<and> table_get (example_results ! 0) 2 ''ul'' = Some ul"
    by (simp only: if_True if_False simp_thms)
  then obtain wa wb dl ul where
    e: "confidence_interval (model example_runner) (poi example_runner)
          (hypotheses_values example_runner ! 0) (hypotheses_values example_runner ! 0) wa
          = Inr ((dl, ul), wb)"
    and d: "table_get (example_results ! 0) 2 ''dl'' = Some dl"
      "table_get (example_results ! 0) 2 ''ul'' = Some ul"
    by blast
  from e have "dl = Finite (- 2)" "ul = Finite 2"
    by (simp_all add: example_runner_def example_model_def)
  with d have v: "table_get (example_results ! 0) 2 ''dl'' = Some (Finite (- 2))"
    "table_get (example_results ! 0) 2 ''ul'' = Some (Finite 2)"
    by simp_all
  show ?thesis
    using init_example simulate_and_fit_example j(2) i c p0 ci v p1 n by (simp only: simp_thms)
qed

section \<open>Hypotheses must constrain fittable parameters\<close>

lemma fit_hypotheses_append:
  "fit_hypotheses r (pre @ rest) w =
     (case fit_hypotheses r pre w of
        Inl e \<Rightarrow> Inl e
      | Inr (frs, w1) \<Rightarrow>
          (case fit_hypotheses r rest w1 of
             Inl e \<Rightarrow> Inl e
           | Inr (frs', w2) \<Rightarrow> Inr (frs @ frs', w2)))"
  by (induction pre arbitrary: w) (auto split: sum.splits)

lemma fit_hypothesis_not_fittable:
  "\<not> set (dict_keys hv) \<subseteq> set (fittable (model r)) \<Longrightarrow>
   fit_hypothesis r hv w = Inl (ValueError (NotFittableSubset hv (fittable (model r))))"
  by (auto simp: fit_hypothesis_def)

lemma fit_hypothesis_fit_fails:
  "set (dict_keys hv) \<subseteq> set (fittable (model r)) \<Longrightarrow> fit (model r) hv w = Inl e \<Longrightarrow>
   fit_hypothesis r hv w = Inl e"
  by (auto simp: fit_hypothesis_def)

lemma simulate_and_fit_first_round:
  assumes "results_init (n_mc r) (result_dtype r) (hypotheses_values r) = Inr res0"
    and "data_generator_begin reader r ws = Inr ((td, names, warns), w1)"
    and "0 < n_mc r"
    and "data_generator_step r 0 td w1 = Inr ((data, td1), w2)"
    and "set_data (model r) data w2 = Inr w3"
    and "fit_hypotheses r (hypotheses_values r) w3 = Inl e"
  shows "simulate_and_fit reader r ws = Inl e"
proof -
  from assms(3) have "[0..<nat (n_mc r)] = 0 # [1..<nat (n_mc r)]"
    by (simp add: upt_conv_Cons)
  then have "consume_generator r (simulate_and_fit_body r) [0..<nat (n_mc r)] td res0 w1 = Inl e"
    using assms(4-6) by (simp add: simulate_and_fit_body_def)
  then show ?thesis
    using assms(1,2) by (simp add: simulate_and_fit_def for_data_generator_def)
qed

lemma fit_hypothesis_subset:
  "fit_hypothesis r hv w = Inr (fr, w') \<Longrightarrow> set (dict_keys hv) \<subseteq> set (fittable (model r))"
  by (auto simp: fit_hypothesis_def split: if_splits)

lemma fit_hypothesis_fit:
  assumes "fit_hypothesis r hv w = Inr (fr, w')"
  shows "\<exists>fit_result max_llh wf.
           fit (model r) hv w = Inr ((fit_result, max_llh), wf)
           \<and> map_of fr ''ll'' = Some max_llh
           \<and> (\<forall>k. k \<notin> {''ll'', ''dl'', ''ul''} \<longrightarrow> map_of fr k = map_of fit_result k)"
proof -
  from assms have sub: "set (dict_keys hv) - set (fittable (model r)) = {}"
    by (auto simp: fit_hypothesis_def split: if_splits)
  from assms sub obtain fit_result max_llh wf where
    f: "fit (model r) hv w = Inr ((fit_result, max_llh), wf)"
    by (auto simp: fit_hypothesis_def split: if_splits sum.splits)
  from assms sub f obtain dl ul where
    fr: "fr = AList.update ''ul'' ul (AList.update ''dl'' dl (AList.update ''ll'' max_llh fit_result))"
    by (auto simp: fit_hypothesis_def split: if_splits sum.splits list.splits)
  have "map_of fr ''ll'' = Some max_llh"
    by (simp add: fr update_conv')
  moreover have "\<forall>k. k \<notin> {''ll'', ''dl'', ''ul''} \<longrightarrow> map_of fr k = map_of fit_result k"
    by (simp add: fr update_conv')
  ultimately show ?thesis using f by simp
qed

lemma simulate_and_fit_subset:
  assumes "simulate_and_fit reader r ws = Inr ((res, warns), ws')" and "0 < n_mc r"
    and "h \<in> set (hypotheses_values r)"
  shows "set (dict_keys h) \<subseteq> set (fittable (model r))"
proof -
  from assms(3) obtain j where j: "j < length (hypotheses_values r)"
    and hj: "h = hypotheses_values r ! j"
    by (auto simp: in_set_conv_nth)
  from assms(2) have i: "0 < nat (n_mc r)" by simp
  from simulate_and_fit_Inr[OF assms(1)] have
    "\<forall>j < length (hypotheses_values r). \<forall>i < nat (n_mc r).
             \<exists>fr wa wb. fit_hypothesis r (hypotheses_values r ! j) wa = Inr (fr, wb)
                \<and> make_row (result_names r) fr = Inr (trows (res ! j) ! i)"
    by (rule conjunct2[THEN conjunct2])
  with j i obtain fr wa wb where "fit_hypothesis r (hypotheses_values r ! j) wa = Inr (fr, wb)"
    by blast
  from fit_hypothesis_subset[OF this] hj show ?thesis by simp
qed

text \<open>
  Claim C8. In the simulate-and-fit loop, a resolved hypothesis whose keys are not all fittable
  parameters of the model makes the run fail at the point where that hypothesis is used: the
  round for that hypothesis raises the \<^verbatim>\<open>ValueError\<close> that names the hypothesis and the fittable
  parameters, without calling the model; so does the loop over the hypotheses once the
  hypotheses before it are fitted, and so does \<^verbatim>\<open>simulate_and_fit\<close> in its first iteration.
  Otherwise the model's \<^verbatim>\<open>fit\<close> is called with the hypothesis as keyword arguments: its
  failure is the round's failure, and its fitted values and likelihood are the round's record.
  A run of at least one iteration that returns has only hypotheses with fittable keys.
\<close>

theorem hypothesis_keys_fittable:
  fixes r :: "('w, 'd) runner"
  shows "(\<not> set (dict_keys hv) \<subseteq> set (fittable (model r)) \<longrightarrow>
            fit_hypothesis r hv w
              = Inl (ValueError (NotFittableSubset hv (fittable (model r))))
            \<and> (fit_hypotheses r pre w0 = Inr (frs, w) \<longrightarrow>
                 fit_hypotheses r (pre @ hv # post) w0
                   = Inl (ValueError (NotFittableSubset hv (fittable (model r)))))
            \<and> (results_init (n_mc r) (result_dtype r) (hypotheses_values r) = Inr res0
                 \<and> data_generator_begin reader r ws = Inr ((td, names, warns), w1)
                 \<and> 0 < n_mc r
                 \<and> data_generator_step r 0 td w1 = Inr ((data, td1), w2)
                 \<and> set_data (model r) data w2 = Inr w0
                 \<and> hypotheses_values r = pre @ hv # post
                 \<and> fit_hypotheses r pre w0 = Inr (frs, w) \<longrightarrow>
                 simulate_and_fit reader r ws
                   = Inl (ValueError (NotFittableSubset hv (fittable (model r))))))
       \<and> (set (dict_keys hv) \<subseteq> set (fittable (model r)) \<longrightarrow>
            (\<forall>e. fit (model r) hv w = Inl e \<longrightarrow> fit_hypothesis r hv w = Inl e)
            \<and> (\<forall>fr w'. fit_hypothesis r hv w = Inr (fr, w') \<longrightarrow>
                  (\<exists>fit_result max_llh wf.
                      fit (model r) hv w = Inr ((fit_result, max_llh), wf)
                      \<and> map_of fr ''ll'' = Some max_llh
                      \<and> (\<forall>k. k \<notin> {''ll'', ''dl'', ''ul''} \<longrightarrow>
                            map_of fr k = map_of fit_result k))))
       \<and> (simulate_and_fit reader r ws = Inr ((res, warns'), ws') \<and> 0 < n_mc r \<longrightarrow>
            (\<forall>h \<in> set (hypotheses_values r). set (dict_keys h) \<subseteq> set (fittable (model r))))"
proof -
  let ?e = "ValueError (NotFittableSubset hv (fittable (model r)))"
  have one: "fit_hypothesis r hv w = Inl ?e"
    if "\<not> set (dict_keys hv) \<subseteq> set (fittable (model r))"
    using that by (rule fit_hypothesis_not_fittable)
  have app: "fit_hypotheses r (pre @ hv # post) w0 = Inl ?e"
    if "\<not> set (dict_keys hv) \<subseteq> set (fittable (model r))"
      and "fit_hypotheses r pre w0 = Inr (frs, w)"
    using that(2) one[OF that(1)] by (simp add: fit_hypotheses_append)
  have run: "simulate_and_fit reader r ws = Inl ?e"
    if bad: "\<not> set (dict_keys hv) \<subseteq> set (fittable (model r))"
      and a1: "results_init (n_mc r) (result_dtype r) (hypotheses_values r) = Inr res0"
      and a2: "data_generator_begin reader r ws = Inr ((td, names, warns), w1)"
      and a3: "0 < n_mc r"
      and a4: "data_generator_step r 0 td w1 = Inr ((data, td1), w2)"
      and a5: "set_data (model r) data w2 = Inr w0"
      and a6: "hypotheses_values r = pre @ hv # post"
      and a7: "fit_hypotheses r pre w0 = Inr (frs, w)"
  proof -
    from app[OF bad a7] a6 have "fit_hypotheses r (hypotheses_values r) w0 = Inl ?e"
      by simp
    from simulate_and_fit_first_round[OF a1 a2 a3 a4 a5 this] show ?thesis .
  qed
  have fails: "fit_hypothesis r hv w = Inl e"
    if "set (dict_keys hv) \<subseteq> set (fittable (model r))" "fit (model r) hv w = Inl e" for e
    using that by (rule fit_hypothesis_fit_fails)
  have fits: "\<exists>fit_result max_llh wf.
                      fit (model r) hv w = Inr ((fit_result, max_llh), wf)
                      \<and> map_of fr ''ll'' = Some max_llh
                      \<and> (\<forall>k. k \<notin> {''ll'', ''dl'', ''ul''} \<longrightarrow>
                            map_of fr k = map_of fit_result k)"
    if "fit_hypothesis r hv w = Inr (fr, w')" for fr w'
    using that by (rule fit_hypothesis_fit)
  have whole: "set (dict_keys h) \<subseteq> set (fittable (model r))"
    if "simulate_and_fit reader r ws = Inr ((res, warns'), ws') \<and> 0 < n_mc r"
      and "h \<in> set (hypotheses_values r)" for h
    using simulate_and_fit_subset[of reader r ws res warns' ws' h] that by simp
  show ?thesis
    apply (intro conjI impI allI ballI)
         apply (erule one)
        apply (erule (1) app)
       apply (elim conjE)
       apply (erule (7) run)
      apply (erule (1) fails)
     apply (erule fits)
    apply (erule (1) whole)
    done
qed

theorem hypothesis_keys_fittable_witness:
  "\<not> set (dict_keys [(''sigma'', PInt 1)])
        \<subseteq> set (fittable (model (example_runner\<lparr>hypotheses_values := [[], [(''sigma'', PInt 1)]]\<rparr>)))
   \<and> 0 < n_mc (example_runner\<lparr>hypotheses_values := [[], [(''sigma'', PInt 1)]]\<rparr>)
   \<and> simulate_and_fit example_reader
        (example_runner\<lparr>hypotheses_values := [[], [(''sigma'', PInt 1)]]\<rparr>) 0
        = Inl (ValueError (NotFittableSubset [(''sigma'', PInt 1)] [''mu'']))
   \<and> set (dict_keys [(''mu'', PFloat (Finite 0))]) \<subseteq> set (fittable (model example_runner))
   \<and> (\<exists>fr w'. fit_hypothesis example_runner [(''mu'', PFloat (Finite 0))] 0 = Inr (fr, w')
         \<and> map_of fr ''ll'' = Some (Finite (- 1)))
   \<and> simulate_and_fit example_reader example_runner 0 = Inr ((example_results, []), 3)
   \<and> 0 < n_mc example_runner
   \<and> set (dict_keys (hypotheses_values example_runner ! 0))
         \<subseteq> set (fittable (model example_runner))
   \<and> set (dict_keys (hypotheses_values example_runner ! 1))
         \<subseteq> set (fittable (model example_runner))"
proof -
  let ?hv = "[(''sigma'', PInt 1)]"
  let ?rb = "example_runner\<lparr>hypotheses_values := [[], ?hv]\<rparr>"
  let ?ok = "[(''mu'', PFloat (Finite 0))]"
  have fittable: "fittable (model ?rb) = [''mu'']" "fittable (model example_runner) = [''mu'']"
    by (simp_all add: example_runner_def example_model_def)
  have bad: "\<not> set (dict_keys ?hv) \<subseteq> set (fittable (model ?rb))"
    by (simp add: fittable dict_keys_def)
  have good: "set (dict_keys ?ok) \<subseteq> set (fittable (model example_runner))"
    by (simp add: fittable dict_keys_def)
  have "\<exists>res0. results_init (n_mc ?rb) (result_dtype ?rb) (hypotheses_values ?rb) = Inr res0"
    by (simp add: example_runner_def np_zeros_def)
  then obtain res0 where
    a1: "results_init (n_mc ?rb) (result_dtype ?rb) (hypotheses_values ?rb) = Inr res0" ..
  have a2: "data_generator_begin example_reader ?rb 0 = Inr (([], None, []), 0)"
    by (simp add: data_generator_begin_def example_runner_def)
  have a3: "0 < n_mc ?rb" and n: "0 < n_mc example_runner"
    by (simp_all add: example_runner_def)
  have a4: "data_generator_step ?rb 0 [] 0 = Inr ((Some 0, []), Suc 0)"
    by (simp add: data_generator_step_def example_runner_def example_model_def)
  have a5: "set_data (model ?rb) (Some 0) (Suc 0) = Inr (Suc 0)"
    by (simp add: example_runner_def example_model_def)
  have a6: "hypotheses_values ?rb = [[]] @ ?hv # []" by simp
  have "\<exists>frs. fit_hypotheses ?rb [[]] (Suc 0) = Inr (frs, Suc 0)"
    by (simp add: fit_hypothesis_def example_runner_def example_model_def dict_keys_def)
  then obtain frs where a7: "fit_hypotheses ?rb [[]] (Suc 0) = Inr (frs, Suc 0)" ..
  note tb = hypothesis_keys_fittable[of ?hv ?rb "Suc 0" "[[]]" "Suc 0" frs "[]" res0
      example_reader 0 "[]" None "[]" 0 "Some 0" "[]" "Suc 0"]
  note f = tb[THEN conjunct1, THEN mp, OF bad, THEN conjunct2, THEN conjunct2, THEN mp,
      OF conjI[OF a1 conjI[OF a2 conjI[OF a3 conjI[OF a4 conjI[OF a5 conjI[OF a6 a7]]]]]]]
  from f have f': "simulate_and_fit example_reader ?rb 0
             = Inl (ValueError (NotFittableSubset ?hv [''mu'']))"
    unfolding fittable .
  have "\<exists>fr w'. fit_hypothesis example_runner ?ok 0 = Inr (fr, w')"
    by (simp add: fit_hypothesis_def example_runner_def example_model_def dict_keys_def)
  then obtain fr w' where fh: "fit_hypothesis example_runner ?ok 0 = Inr (fr, w')" by blast
  note tg = hypothesis_keys_fittable[of ?ok example_runner 0 "[]" 0 "[]" "[]" "[]"
      example_reader 0 "[]" None "[]" 0 None "[]" 0 example_results "[]" 3]
  note t_fit = tg[THEN conjunct2, THEN conjunct1, THEN mp, OF good, THEN conjunct2,
      rule_format, OF fh]
  then have "map_of fr ''ll'' = Some (Finite (- 1))"
    by (simp add: example_runner_def example_model_def)
  with fh have g: "\<exists>fr w'. fit_hypothesis example_runner ?ok 0 = Inr (fr, w')
         \<and> map_of fr ''ll'' = Some (Finite (- 1))"
    by blast
  note all = tg[THEN conjunct2, THEN conjunct2, THEN mp, OF conjI[OF simulate_and_fit_example n]]
  have m: "hypotheses_values example_runner ! 0 \<in> set (hypotheses_values example_runner)"
    "hypotheses_values example_runner ! 1 \<in> set (hypotheses_values example_runner)"
    by (simp_all add: example_runner_def)
  note all0 = all[THEN bspec, OF m(1)]
  note all1 = all[THEN bspec, OF m(2)]
  show ?thesis
    apply (intro conjI)
            apply (rule bad)
           apply (rule a3)
          apply (rule f')
         apply (rule good)
        apply (rule g)
       apply (rule simulate_and_fit_example)
      apply (rule n)
     apply (rule all0)
    apply (rule all1)
    done
qed

end
